theory Spec2Isabelle
  imports Complex_Main "HOL-Library.Word"
begin

unbundle bit_operations_syntax

chapter \<open>Definitions\<close>

section \<open>TTS service: the manual base64 encoder\<close>

text \<open>
  \<^verbatim>\<open>TTSService.arrayBufferToBase64\<close> (the fallback of \<^verbatim>\<open>speakWithOpenAI\<close> when
  \<^verbatim>\<open>btoa\<close> is undefined). A \<^verbatim>\<open>Uint8Array\<close> is a list of bytes; the bitmap is
  built with JavaScript's 32-bit bitwise operators, so it is a 32-bit word, and
  \<^verbatim>\<open>>>\<close> is the arithmetic shift.
\<close>

type_synonym byte = "8 word"

definition chars :: string where
  "chars = ''ABCDEFGHIJKLMNOPQRSTUVWXYZabcdefghijklmnopqrstuvwxyz0123456789+/''"

text \<open>\<^verbatim>\<open>String.prototype.charAt\<close>: the empty string out of range.\<close>

definition charAt :: "string \<Rightarrow> nat \<Rightarrow> string" where
  "charAt s n = (if n < length s then [s ! n] else [])"

text \<open>\<^verbatim>\<open>(a << 16) | (b << 8) | c\<close>\<close>

definition bitmap_of :: "byte \<Rightarrow> byte \<Rightarrow> byte \<Rightarrow> 32 word" where
  "bitmap_of a b c = (push_bit 16 (ucast a) OR push_bit 8 (ucast b)) OR ucast c"

text \<open>\<^verbatim>\<open>chars.charAt((bitmap >> k) & 63)\<close>\<close>

definition sextet :: "32 word \<Rightarrow> nat \<Rightarrow> string" where
  "sextet bitmap k = charAt chars (unat (signed_drop_bit k bitmap AND 63))"

text \<open>
  The \<^verbatim>\<open>while (i < buffer.length)\<close> loop. \<open>i1\<close>, \<open>i2\<close>, \<open>i3\<close> are the values of
  \<^verbatim>\<open>i\<close> after each \<^verbatim>\<open>i++\<close>; the two padding tests \<^verbatim>\<open>i - 2 < buffer.length\<close> and
  \<^verbatim>\<open>i - 1 < buffer.length\<close> are on JavaScript numbers, so the subtraction is
  done on \<open>int\<close>.
\<close>

function b64_loop :: "byte list \<Rightarrow> nat \<Rightarrow> string \<Rightarrow> string" where
  "b64_loop buffer i result =
     (if i < length buffer then
        (let a = buffer ! i;
             i1 = i + 1;
             b = (if i1 < length buffer then buffer ! i1 else 0);
             i2 = (if i1 < length buffer then i1 + 1 else i1);
             c = (if i2 < length buffer then buffer ! i2 else 0);
             i3 = (if i2 < length buffer then i2 + 1 else i2);
             bitmap = bitmap_of a b c;
             r1 = result @ sextet bitmap 18;
             r2 = r1 @ sextet bitmap 12;
             r3 = r2 @ (if int i3 - 2 < int (length buffer) then sextet bitmap 6 else ''='');
             r4 = r3 @ (if int i3 - 1 < int (length buffer) then sextet bitmap 0 else ''='')
         in b64_loop buffer i3 r4)
      else result)"
  by pat_completeness auto
termination
  by (relation "measure (\<lambda>(buffer, i, result). length buffer - i)") auto

definition arrayBufferToBase64 :: "byte list \<Rightarrow> string" where
  "arrayBufferToBase64 buffer = b64_loop buffer 0 []"

text \<open>
  The reference the encoder is compared with, written from RFC 4648 section 4 (the
  encoding \<^verbatim>\<open>btoa\<close> computes), not from the source: each group of three bytes gives
  four characters of the alphabet; a final group of one byte gives two characters and
  \<^verbatim>\<open>==\<close>, a final group of two bytes gives three characters and \<^verbatim>\<open>=\<close>.
\<close>

definition rfc4648_char :: "nat \<Rightarrow> char" where
  "rfc4648_char n = chars ! (n mod 64)"

fun rfc4648_base64 :: "byte list \<Rightarrow> string" where
  "rfc4648_base64 [] = []"
| "rfc4648_base64 [a] =
     [rfc4648_char (unat a div 4), rfc4648_char ((unat a mod 4) * 16), CHR ''='', CHR ''='']"
| "rfc4648_base64 [a, b] =
     [rfc4648_char (unat a div 4),
      rfc4648_char ((unat a mod 4) * 16 + unat b div 16),
      rfc4648_char ((unat b mod 16) * 4), CHR ''='']"
| "rfc4648_base64 (a # b # c # rest) =
     [rfc4648_char (unat a div 4),
      rfc4648_char ((unat a mod 4) * 16 + unat b div 16),
      rfc4648_char ((unat b mod 16) * 4 + unat c div 64),
      rfc4648_char (unat c mod 64)] @ rfc4648_base64 rest"

section \<open>Transcript source resolver (whisperService)\<close>

text \<open>
  \<^verbatim>\<open>Platform.OS\<close>, the two transcript sources (\<^verbatim>\<open>'youtube'\<close> are the platform
  captions, \<^verbatim>\<open>'whisper'\<close> the server-side transcription) and the interfaces
  \<^verbatim>\<open>ProcessedSentence\<close> and \<^verbatim>\<open>TranscriptResult\<close>. The field names \<^verbatim>\<open>text\<close> and
  \<^verbatim>\<open>end\<close> are keywords here, hence the suffix; JavaScript numbers are taken as reals.
  The optional \<^verbatim>\<open>words\<close> of a sentence play no part and are left out.
\<close>

datatype platform = web | ios | android

datatype source = youtube | whisper

record ProcessedSentence =
  text_field :: string
  start :: real
  end_field :: real
  duration :: real

record TranscriptResult =
  success :: bool
  source :: source
  sentences :: "ProcessedSentence list"
  transcription :: "string option"
  duration_total :: "real option"

text \<open>A thrown \<^verbatim>\<open>Error\<close> with its message.\<close>

datatype error = Error string

fun message :: "error \<Rightarrow> string" where
  "message (Error m) = m"

text \<open>
  The outside world. Every network or file-system call of the service appends a
  \<open>request\<close> to the log \<open>calls\<close>; what the call returns is given by
  \<open>services\<close>, a function of the log before the call, so that any sequence of replies
  can be supplied. A reply that throws (\<^verbatim>\<open>fetch\<close> or \<^verbatim>\<open>json()\<close> rejecting) carries the
  message. \<open>CachedReply latency ok body\<close> is the reply of the cache endpoint, with
  \<open>latency\<close> the milliseconds from the call of \<^verbatim>\<open>fetch\<close> until it resolves (the abort
  timer is started just before that call), with \<^verbatim>\<open>response.ok\<close> and the parsed body (\<open>None\<close> when
  \<^verbatim>\<open>json()\<close> throws). \<open>TranscribeError e\<close> is a reply with \<^verbatim>\<open>!response.ok\<close> and
  \<^verbatim>\<open>errorData.error = e\<close>.
\<close>

datatype request =
    SubtitlesFetch string bool
  | CachedFetch string
  | AudioUrlFetch string
  | DownloadAudio string
  | GetInfo string
  | TranscribePost string
  | DeleteFile string

record reply_body =
  bSentences :: "ProcessedSentence list option"
  bTranscription :: "string option"
  bDuration :: "real option"

datatype subtitles_response =
    SubtitlesThrows string
  | SubtitlesData bool "ProcessedSentence list option" "string option"

datatype cached_response =
    CachedThrows string
  | CachedReply nat bool "reply_body option"

datatype audio_response = AudioThrows string | AudioData "string option"

datatype download_response = DownloadThrows string | DownloadStatus nat

datatype info_response = InfoThrows string | Info bool

datatype transcribe_response =
    TranscribeThrows string
  | TranscribeError "string option"
  | TranscribeData reply_body

datatype delete_response = DeleteThrows string | Deleted

record services =
  subtitles :: "request list \<Rightarrow> subtitles_response"
  cached :: "request list \<Rightarrow> cached_response"
  audio :: "request list \<Rightarrow> audio_response"
  download :: "request list \<Rightarrow> download_response"
  getInfo :: "request list \<Rightarrow> info_response"
  transcribe :: "request list \<Rightarrow> transcribe_response"
  deleteFile :: "request list \<Rightarrow> delete_response"

text \<open>
  The module state: \<^verbatim>\<open>sourceCache\<close>, the in-memory \<^verbatim>\<open>Map\<close> from video id to the
  source that worked, and the log of requests made so far.
\<close>

record world =
  sourceCache :: "string \<rightharpoonup> source"
  calls :: "request list"

definition request :: "request \<Rightarrow> world \<Rightarrow> world" where
  "request r w = w\<lparr>calls := calls w @ [r]\<rparr>"

text \<open>
  \<^verbatim>\<open>v || d\<close> on an optional string (an absent and an empty string are both falsy), and
  \<^verbatim>\<open>String.prototype.includes\<close>.
\<close>

definition or_default :: "string option \<Rightarrow> string \<Rightarrow> string" where
  "or_default v d = (case v of None \<Rightarrow> d | Some s \<Rightarrow> if s = [] then d else s)"

fun includes_str :: "string \<Rightarrow> string \<Rightarrow> bool" where
  "includes_str [] sub = (sub = [])"
| "includes_str (c # cs) sub = (take (length sub) (c # cs) = sub \<or> includes_str cs sub)"

text \<open>
  \<^verbatim>\<open>getYouTubeSubtitles\<close>: the result when \<^verbatim>\<open>data.success && data.sentences\<close> (an
  empty array is truthy), otherwise it throws \<^verbatim>\<open>data.error || 'No YouTube subtitles found'\<close>;
  its \<^verbatim>\<open>catch\<close> rethrows the error unchanged.
\<close>

definition getYouTubeSubtitles ::
  "services \<Rightarrow> string \<Rightarrow> bool \<Rightarrow> world \<Rightarrow> (error + TranscriptResult) \<times> world" where
  "getYouTubeSubtitles env videoId useSpacy w =
     (let w1 = request (SubtitlesFetch videoId useSpacy) w in
      case subtitles env (calls w) of
        SubtitlesThrows m \<Rightarrow> (Inl (Error m), w1)
      | SubtitlesData ok sents err \<Rightarrow>
          (case sents of
             Some ss \<Rightarrow>
               if ok then
                 (Inr \<lparr>success = True, source = youtube, sentences = ss,
                        transcription = None, duration_total = None\<rparr>, w1)
               else (Inl (Error (or_default err ''No YouTube subtitles found'')), w1)
           | None \<Rightarrow> (Inl (Error (or_default err ''No YouTube subtitles found'')), w1)))"

text \<open>\<^verbatim>\<open>catch (error) { throw new Error(prefix + error.message) }\<close>\<close>

definition rethrow :: "string \<Rightarrow> (error + 'a) \<times> world \<Rightarrow> (error + 'a) \<times> world" where
  "rethrow prefix r =
     (case r of
        (Inl e, w) \<Rightarrow> (Inl (Error (prefix @ message e)), w)
      | (Inr v, w) \<Rightarrow> (Inr v, w))"

text \<open>
  \<^verbatim>\<open>extractAudio\<close>: the body of its \<^verbatim>\<open>try\<close>, then the \<^verbatim>\<open>catch\<close>. On the web the
  audio URL is returned; on a native platform the file is downloaded (the cache directory
  and the time stamp of the file name are left out of the name).
\<close>

definition audioFile :: "string \<Rightarrow> string" where
  "audioFile videoId = ''audio_'' @ videoId @ ''.m4a''"

definition extractAudio_try ::
  "services \<Rightarrow> platform \<Rightarrow> string \<Rightarrow> world \<Rightarrow> (error + string) \<times> world" where
  "extractAudio_try env plat videoId w =
     (let w1 = request (AudioUrlFetch videoId) w in
      case audio env (calls w) of
        AudioThrows m \<Rightarrow> (Inl (Error m), w1)
      | AudioData audioUrl \<Rightarrow>
          (if or_default audioUrl [] = [] then (Inl (Error ''Failed to extract audio URL''), w1)
           else if plat = web then (Inr (or_default audioUrl []), w1)
           else
             (let audioUri = audioFile videoId;
                  w2 = request (DownloadAudio videoId) w1 in
              case download env (calls w1) of
                DownloadThrows m \<Rightarrow> (Inl (Error m), w2)
              | DownloadStatus st \<Rightarrow>
                  if st \<noteq> 200 then (Inl (Error ''Failed to download audio file''), w2)
                  else
                    (let w3 = request (GetInfo audioUri) w2 in
                     case getInfo env (calls w2) of
                       InfoThrows m \<Rightarrow> (Inl (Error m), w3)
                     | Info ex \<Rightarrow> (Inr audioUri, w3)))))"

definition extractAudio ::
  "services \<Rightarrow> platform \<Rightarrow> string \<Rightarrow> world \<Rightarrow> (error + string) \<times> world" where
  "extractAudio env plat videoId w =
     rethrow ''Failed to extract audio: '' (extractAudio_try env plat videoId w)"

text \<open>
  The object both \<^verbatim>\<open>getWhisperFromCache\<close> and \<^verbatim>\<open>transcribeWithWhisper\<close> build from
  a reply body (\<^verbatim>\<open>sentences: data.sentences || []\<close>).
\<close>

definition whisper_result :: "reply_body \<Rightarrow> TranscriptResult" where
  "whisper_result data =
     \<lparr>success = True, source = whisper,
      sentences = (case bSentences data of None \<Rightarrow> [] | Some ss \<Rightarrow> ss),
      transcription = bTranscription data,
      duration_total = bDuration data\<rparr>"

text \<open>
  \<^verbatim>\<open>getWhisperFromCache\<close>: the \<^verbatim>\<open>fetch\<close> is aborted by the timer after 5000 ms, so a
  reply that needs 5000 ms or more is the \<^verbatim>\<open>AbortError\<close>; every error ends in
  \<^verbatim>\<open>null\<close>, as does a reply that is not \<^verbatim>\<open>ok\<close>.
\<close>

definition getWhisperFromCache ::
  "services \<Rightarrow> string \<Rightarrow> world \<Rightarrow> TranscriptResult option \<times> world" where
  "getWhisperFromCache env videoId w =
     (let w1 = request (CachedFetch videoId) w in
      case cached env (calls w) of
        CachedThrows m \<Rightarrow> (None, w1)
      | CachedReply latency ok body \<Rightarrow>
          if 5000 \<le> latency then (None, w1)
          else if ok then
            (case body of
               None \<Rightarrow> (None, w1)
             | Some cachedData \<Rightarrow>
                 (Some (whisper_result cachedData), w1))
          else (None, w1))"

text \<open>
  The end of \<^verbatim>\<open>transcribeWithWhisper\<close>, common to both platforms: the POST to
  \<^verbatim>\<open>/whisper/transcribe\<close>, and on a native platform the removal of the downloaded
  file before the result is returned.
\<close>

definition uploadAudio ::
  "services \<Rightarrow> platform \<Rightarrow> string \<Rightarrow> string \<Rightarrow> world \<Rightarrow> (error + TranscriptResult) \<times> world" where
  "uploadAudio env plat videoId audioUri w =
     (let w1 = request (TranscribePost videoId) w in
      case transcribe env (calls w) of
        TranscribeThrows m \<Rightarrow> (Inl (Error m), w1)
      | TranscribeError e \<Rightarrow> (Inl (Error (or_default e ''Whisper API error'')), w1)
      | TranscribeData data \<Rightarrow>
          (let res = whisper_result data in
           if plat \<noteq> web then
             (let w2 = request (DeleteFile audioUri) w1 in
              case deleteFile env (calls w1) of
                DeleteThrows m \<Rightarrow> (Inl (Error m), w2)
              | Deleted \<Rightarrow> (Inr res, w2))
           else (Inr res, w1)))"

text \<open>
  \<^verbatim>\<open>transcribeWithWhisper\<close>: the quick cache check first, then the audio extraction and
  the upload; its \<^verbatim>\<open>catch\<close> wraps every error.
\<close>

definition transcribeWithWhisper_try ::
  "services \<Rightarrow> platform \<Rightarrow> string \<Rightarrow> world \<Rightarrow> (error + TranscriptResult) \<times> world" where
  "transcribeWithWhisper_try env plat videoId w =
     (case getWhisperFromCache env videoId w of
        (Some cachedResult, w1) \<Rightarrow> (Inr cachedResult, w1)
      | (None, w1) \<Rightarrow>
          (case extractAudio env plat videoId w1 of
             (Inl e, w2) \<Rightarrow> (Inl e, w2)
           | (Inr audioUri, w2) \<Rightarrow>
               if plat = web then uploadAudio env plat videoId audioUri w2
               else
                 (let w3 = request (GetInfo audioUri) w2 in
                  case getInfo env (calls w2) of
                    InfoThrows m \<Rightarrow> (Inl (Error m), w3)
                  | Info ex \<Rightarrow>
                      if \<not> ex then (Inl (Error ''Audio file does not exist''), w3)
                      else uploadAudio env plat videoId audioUri w3)))"

definition transcribeWithWhisper ::
  "services \<Rightarrow> platform \<Rightarrow> string \<Rightarrow> world \<Rightarrow> (error + TranscriptResult) \<times> world" where
  "transcribeWithWhisper env plat videoId w =
     rethrow ''Whisper transcription failed: '' (transcribeWithWhisper_try env plat videoId w)"

text \<open>
  \<^verbatim>\<open>getTranscriptData\<close>. \<open>whisperFallback\<close> is its step 2 (``fall back to Whisper
  AI'') and \<open>fallbackChain\<close> its step 1 followed by step 2, both already under the
  outer \<^verbatim>\<open>catch\<close> that prefixes the message; \<open>getTranscriptData\<close> reads the
  preferred source first and falls through to \<open>fallbackChain\<close>.
\<close>

definition whisperFallback ::
  "services \<Rightarrow> platform \<Rightarrow> string \<Rightarrow> world \<Rightarrow> (error + TranscriptResult) \<times> world" where
  "whisperFallback env plat videoId w =
     (case transcribeWithWhisper env plat videoId w of
        (Inr whisperResult, w1) \<Rightarrow>
          (Inr whisperResult, w1\<lparr>sourceCache := (sourceCache w1)(videoId \<mapsto> whisper)\<rparr>)
      | (Inl whisperError, w1) \<Rightarrow>
          (Inl (Error (''Failed to get transcript: '' @
             (if includes_str (message whisperError) ''Network request failed''
              then ''Network connection failed. Please check your internet connection and try again.''
              else ''Both YouTube subtitles and Whisper AI are unavailable for this video. Please try a different video or check your connection.''))),
           w1))"

definition fallbackChain ::
  "services \<Rightarrow> platform \<Rightarrow> string \<Rightarrow> world \<Rightarrow> (error + TranscriptResult) \<times> world" where
  "fallbackChain env plat videoId w =
     (case getYouTubeSubtitles env videoId True w of
        (Inr youtubeResult, w1) \<Rightarrow>
          if success youtubeResult \<and> 0 < length (sentences youtubeResult) then
            (Inr youtubeResult, w1\<lparr>sourceCache := (sourceCache w1)(videoId \<mapsto> youtube)\<rparr>)
          else whisperFallback env plat videoId w1
      | (Inl e, w1) \<Rightarrow> whisperFallback env plat videoId w1)"

definition getTranscriptData ::
  "services \<Rightarrow> platform \<Rightarrow> string \<Rightarrow> world \<Rightarrow> (error + TranscriptResult) \<times> world" where
  "getTranscriptData env plat videoId w =
     (case sourceCache w videoId of
        Some whisper \<Rightarrow>
          (case transcribeWithWhisper env plat videoId w of
             (Inr whisperResult, w1) \<Rightarrow> (Inr whisperResult, w1)
           | (Inl e, w1) \<Rightarrow> fallbackChain env plat videoId w1)
      | Some youtube \<Rightarrow>
          (case getYouTubeSubtitles env videoId True w of
             (Inr youtubeResult, w1) \<Rightarrow>
               if success youtubeResult \<and> 0 < length (sentences youtubeResult) then
                 (Inr youtubeResult, w1)
               else fallbackChain env plat videoId w1
           | (Inl e, w1) \<Rightarrow> fallbackChain env plat videoId w1)
      | None \<Rightarrow> fallbackChain env plat videoId w)"

text \<open>
  Which requests deliver a transcript of which source: the captions request for
  \<open>youtube\<close>; for \<open>whisper\<close> the cache request, the upload, and on a native platform
  the clean-up that follows the upload.
\<close>

fun produced_by :: "source \<Rightarrow> request \<Rightarrow> bool" where
  "produced_by youtube (SubtitlesFetch v u) = True"
| "produced_by whisper (CachedFetch v) = True"
| "produced_by whisper (TranscribePost v) = True"
| "produced_by whisper (DeleteFile f) = True"
| "produced_by s r = False"

subsection \<open>Concrete services and states\<close>

definition four_sentences :: "ProcessedSentence list" where
  "four_sentences =
     [\<lparr>text_field = ''one'', start = 0, end_field = 2, duration = 2\<rparr>,
      \<lparr>text_field = ''two'', start = 2, end_field = 5, duration = 3\<rparr>,
      \<lparr>text_field = ''three'', start = 5, end_field = 6, duration = 1\<rparr>,
      \<lparr>text_field = ''four'', start = 6, end_field = 9, duration = 3\<rparr>]"

definition offline_services :: services where
  "offline_services =
     \<lparr>subtitles = (\<lambda>log. SubtitlesThrows ''Network request failed''),
      cached = (\<lambda>log. CachedThrows ''Network request failed''),
      audio = (\<lambda>log. AudioThrows ''Network request failed''),
      download = (\<lambda>log. DownloadThrows ''Network request failed''),
      getInfo = (\<lambda>log. InfoThrows ''Network request failed''),
      transcribe = (\<lambda>log. TranscribeThrows ''Network request failed''),
      deleteFile = (\<lambda>log. DeleteThrows ''Network request failed'')\<rparr>"

definition no_captions_services :: services where
  "no_captions_services =
     \<lparr>subtitles = (\<lambda>log. SubtitlesData False None (Some ''No English subtitles'')),
      cached = (\<lambda>log. CachedReply 5000 False None),
      audio = (\<lambda>log. AudioData (Some ''https://cdn.example/abc.m4a'')),
      download = (\<lambda>log. DownloadStatus 200),
      getInfo = (\<lambda>log. Info True),
      transcribe = (\<lambda>log. TranscribeData
         \<lparr>bSentences = Some four_sentences, bTranscription = None, bDuration = Some 9\<rparr>),
      deleteFile = (\<lambda>log. Deleted)\<rparr>"

definition captions_services :: services where
  "captions_services = no_captions_services
     \<lparr>subtitles := (\<lambda>log. SubtitlesData True (Some four_sentences) None)\<rparr>"

definition cache_hit_services :: services where
  "cache_hit_services = no_captions_services
     \<lparr>cached := (\<lambda>log. CachedReply 80 True
         (Some \<lparr>bSentences = Some four_sentences, bTranscription = None, bDuration = Some 9\<rparr>))\<rparr>"

text \<open>Captions exist, but the audio extraction is out of reach.\<close>

definition extraction_down_services :: services where
  "extraction_down_services = captions_services
     \<lparr>audio := (\<lambda>log. AudioThrows ''Network request failed'')\<rparr>"

definition fresh_world :: world where
  "fresh_world = \<lparr>sourceCache = Map.empty, calls = []\<rparr>"

definition transcribed_world :: world where
  "transcribed_world = \<lparr>sourceCache = [''abc'' \<mapsto> whisper], calls = []\<rparr>"

section \<open>Playback: the practice screen and the audio player\<close>

text \<open>
  The screen (\<^verbatim>\<open>ScriptPracticeScreen\<close>) and the audio player it mounts (\<^verbatim>\<open>AudioPlayer\<close>:
  \<^verbatim>\<open>WebAudioPlayer\<close> on the web, \<^verbatim>\<open>NativeAudioPlayer\<close> elsewhere) are one state. Each
  handler runs to its end before the next event; between two events the components have
  rendered, so a handler reads the state as it is when it starts.

  What leaves the program is logged: \<open>commands\<close> are the calls on the audio backend
  (the \<^verbatim>\<open>audio\<close> element or the \<^verbatim>\<open>Sound\<close>): \<^verbatim>\<open>currentTime = t\<close> or \<^verbatim>\<open>setPositionAsync\<close>,
  \<^verbatim>\<open>play\<close>, \<^verbatim>\<open>pause\<close>; \<open>ttsCommands\<close> are the calls on \<^verbatim>\<open>TTSService\<close>, which is
  taken to complete them; \<open>invoked\<close> lists the \<^verbatim>\<open>onSilenceDetected\<close> callbacks in the
  order they were called.
\<close>

datatype playback_mode = tts | original | video

datatype media_command = Seek real | Play | Pause

datatype tts_command = SpeakWithExpoSpeech string | SpeakWithOpenAI string | StopTTS

text \<open>
  A function defined in a render keeps the state variables of that render. \<open>closure\<close>
  holds what \<^verbatim>\<open>playSentenceOnly\<close> (and the callbacks it creates, which call it again)
  reads of them: \<^verbatim>\<open>isAutoPlay\<close> and \<^verbatim>\<open>sentences\<close>. The callback passed to
  \<^verbatim>\<open>playWithVAD\<close> is determined by the sentence and that closure.
\<close>

record closure =
  cIsAutoPlay :: bool
  cSentences :: "ProcessedSentence list"

datatype callback = OnSilence ProcessedSentence closure

text \<open>
  Everything that is waiting to run: the intervals and timeouts set with
  \<^verbatim>\<open>setInterval\<close> and \<^verbatim>\<open>setTimeout\<close> and the pending promises, each with the variables
  its callback has captured.
  \<^item> \<open>VadInterval isPlaying silenceCount speechCount\<close>: the 100 ms sampling interval of
    \<^verbatim>\<open>startVoiceActivityDetection\<close>, with the player's \<^verbatim>\<open>isPlaying\<close> of the render in
    which \<^verbatim>\<open>playWithVAD\<close> was called and the two counters;
  \<^item> \<open>EndCheckInterval sentenceEndTime\<close>: the 100 ms interval running
    \<^verbatim>\<open>checkAndStopAtSentenceEnd\<close>, with the \<^verbatim>\<open>sentenceEndTime\<close> of that render;
  \<^item> \<open>VadFallback\<close>: the 5 second timeout of the detector's \<^verbatim>\<open>catch\<close>;
  \<^item> \<open>StopTimer\<close>: the timeout of \<^verbatim>\<open>playSentenceOnly\<close>'s timer branch;
  \<^item> \<open>NextSentence\<close>: the 500 ms timeout before the next sentence under auto play;
  \<^item> \<open>PlayThenVAD\<close> and \<open>PlayThen\<close>: the promise of \<^verbatim>\<open>audio.play()\<close> in
    \<^verbatim>\<open>playWithVAD\<close> and in \<^verbatim>\<open>play\<close>;
  \<^item> \<open>SpeechDone\<close>: the promise of \<^verbatim>\<open>speakWithExpoSpeech\<close>.
  \<open>delay\<close> is in milliseconds (0 for a promise).
\<close>

datatype task =
    VadInterval bool nat nat
  | EndCheckInterval "real option"
  | VadFallback
  | StopTimer ProcessedSentence closure
  | NextSentence ProcessedSentence closure
  | PlayThenVAD callback bool
  | PlayThen
  | SpeechDone

record job =
  jobId :: nat
  delay :: real
  task :: task

text \<open>
  The state. From the screen: its state variables (\<open>scriptSentences\<close> is
  \<^verbatim>\<open>sentences\<close>) and the refs \<^verbatim>\<open>sentenceTimerRef\<close> and \<^verbatim>\<open>audioPlayerRef\<close> (whether the
  player is mounted). From the player: \<open>audioRef\<close> (the loaded audio: \<^verbatim>\<open>audioRef.current\<close>
  on the web, \<^verbatim>\<open>sound\<close> on a native platform), \<open>playerIsPlaying\<close> (its own
  \<^verbatim>\<open>isPlaying\<close>), \<^verbatim>\<open>sentenceEndTime\<close> and the refs of the detector. A ref to a timer is
  the timer's id or \<open>None\<close>.
\<close>

record app =
  scriptSentences :: "ProcessedSentence list"
  currentSentenceIndex :: nat
  isPlaying :: bool
  isAutoPlay :: bool
  isAudioPlaying :: bool
  playbackMode :: "playback_mode option"
  isTTSPlaying :: bool
  isGlobalPlaying :: bool
  currentSentence :: "ProcessedSentence option"
  sentenceTimerRef :: "nat option"
  audioPlayerRef :: bool
  audioRef :: bool
  playerIsPlaying :: bool
  sentenceEndTime :: "real option"
  vadIntervalRef :: "nat option"
  endCheckInterval :: "nat option"
  audioContextRef :: bool
  analyserRef :: bool
  onSilenceDetectedRef :: "callback option"
  pending :: "job list"
  nextId :: nat
  commands :: "media_command list"
  ttsCommands :: "tts_command list"
  invoked :: "callback list"

text \<open>
  \<^verbatim>\<open>setTimeout\<close>/\<^verbatim>\<open>setInterval\<close> (the id returned is \<open>nextId\<close> before the call),
  \<^verbatim>\<open>clearTimeout\<close>/\<^verbatim>\<open>clearInterval\<close>, the pending job of an id, and the update of the
  variables an interval's callback has captured.
\<close>

definition setTimer :: "real \<Rightarrow> task \<Rightarrow> app \<Rightarrow> app" where
  "setTimer ms t st =
     st\<lparr>pending := pending st @ [\<lparr>jobId = nextId st, delay = ms, task = t\<rparr>],
        nextId := nextId st + 1\<rparr>"

definition clearTimer :: "nat \<Rightarrow> app \<Rightarrow> app" where
  "clearTimer i st = st\<lparr>pending := filter (\<lambda>j. jobId j \<noteq> i) (pending st)\<rparr>"

definition pendingJob :: "nat \<Rightarrow> app \<Rightarrow> job option" where
  "pendingJob i st = find (\<lambda>j. jobId j = i) (pending st)"

definition setTask :: "nat \<Rightarrow> task \<Rightarrow> app \<Rightarrow> app" where
  "setTask i t st =
     st\<lparr>pending := map (\<lambda>j. if jobId j = i then j\<lparr>task := t\<rparr> else j) (pending st)\<rparr>"

section \<open>The boundary detector (voice activity detection)\<close>

text \<open>
  What one tick reads from the analyser: the time-domain bytes and the frequency bytes.
  The constants are those of \<^verbatim>\<open>startVoiceActivityDetection\<close>; \<^verbatim>\<open>Math.floor(300 / 21.5)\<close>
  is 13 and \<^verbatim>\<open>Math.floor(3400 / 21.5)\<close> is 158. The arithmetic on JavaScript numbers is
  done on the reals.
\<close>

record frame =
  timeDomain :: "byte list"
  frequencyData :: "byte list"

definition silenceThreshold :: nat where "silenceThreshold = 8"
definition speechThreshold :: nat where "speechThreshold = 3"
definition volumeThreshold :: real where "volumeThreshold = 15"
definition speechFrequencyThreshold :: real where "speechFrequencyThreshold = 25"
definition speechStartBin :: nat where "speechStartBin = nat \<lfloor>300 / 21.5 :: real\<rfloor>"
definition speechEndBin :: nat where "speechEndBin = nat \<lfloor>3400 / 21.5 :: real\<rfloor>"

definition rms_of :: "byte list \<Rightarrow> real" where
  "rms_of dataArray =
     sqrt ((\<Sum>d\<leftarrow>dataArray. ((real (unat d) - 128) / 128) * ((real (unat d) - 128) / 128))
           / real (length dataArray)) * 100"

definition speechEnergy_of :: "byte list \<Rightarrow> real" where
  "speechEnergy_of freq =
     (\<Sum>i\<leftarrow>[speechStartBin ..< min speechEndBin (length freq)].
        real (unat (freq ! i)))
     / (real speechEndBin - real speechStartBin)"

definition isSpeech :: "frame \<Rightarrow> bool" where
  "isSpeech fr =
     (volumeThreshold < rms_of (timeDomain fr) \<and>
      speechFrequencyThreshold < speechEnergy_of (frequencyData fr))"


text \<open>
  How the construction of the audio graph ends: it succeeds;
  \<^verbatim>\<open>createMediaElementSource\<close> throws (the inner \<^verbatim>\<open>catch\<close>: the audio element is already
  connected); or another step throws (the outer \<^verbatim>\<open>catch\<close>: for example no
  \<^verbatim>\<open>AudioContext\<close>).
\<close>

datatype graph_setup = GraphBuilt | SourceAlreadyConnected | SetupThrows

text \<open>
  What comes with an event: a timeout has elapsed; an interval ticks with the frame
  sampled, or with the audio position; a promise of \<^verbatim>\<open>audio.play()\<close> is resolved (with
  the outcome of the graph construction its callback will attempt) or rejected.
\<close>

datatype occasion =
    Elapsed
  | Sampled frame
  | AudioAt real
  | Resolved graph_setup
  | Rejected

text \<open>\<^verbatim>\<open>if (ref.current) { clearInterval(ref.current) }\<close>, also for \<^verbatim>\<open>clearTimeout\<close>.\<close>

definition clearIfSet :: "nat option \<Rightarrow> app \<Rightarrow> app" where
  "clearIfSet r st = (case r of None \<Rightarrow> st | Some i \<Rightarrow> clearTimer i st)"

text \<open>
  \<^verbatim>\<open>stopVoiceActivityDetection\<close>. \<^verbatim>\<open>clearInterval\<close> does not throw and
  \<^verbatim>\<open>AudioContext.close()\<close> reports failure through the promise it returns, which is not
  awaited, so the \<^verbatim>\<open>try\<close> block runs to its end: all four refs are \<^verbatim>\<open>null\<close> afterwards.
\<close>

definition stopVoiceActivityDetection :: "app \<Rightarrow> app" where
  "stopVoiceActivityDetection st =
     (clearIfSet (vadIntervalRef st) st)
       \<lparr>vadIntervalRef := None, audioContextRef := False, analyserRef := False,
        onSilenceDetectedRef := None\<rparr>"

text \<open>
  \<^verbatim>\<open>startVoiceActivityDetection\<close>, with the captured \<^verbatim>\<open>isPlaying\<close> and the outcome of
  the graph construction.
\<close>

definition startVoiceActivityDetection ::
  "platform \<Rightarrow> bool \<Rightarrow> graph_setup \<Rightarrow> callback \<Rightarrow> app \<Rightarrow> app" where
  "startVoiceActivityDetection plat capturedIsPlaying setup onSilenceDetected st =
     (if plat \<noteq> web then st
      else
        (let st1 = (stopVoiceActivityDetection st)\<lparr>onSilenceDetectedRef := Some onSilenceDetected\<rparr>
         in case setup of
              SourceAlreadyConnected \<Rightarrow> st1
            | SetupThrows \<Rightarrow> setTimer 5000 VadFallback st1
            | GraphBuilt \<Rightarrow>
                (setTimer 100 (VadInterval capturedIsPlaying 0 0) st1)
                  \<lparr>audioContextRef := True, analyserRef := True,
                   vadIntervalRef := Some (nextId st1)\<rparr>))"

text \<open>
  The callback \<^verbatim>\<open>playSentenceOnly\<close> passes to \<^verbatim>\<open>playWithVAD\<close>: \<open>invoke\<close> runs it and
  logs the call. \<open>autoAdvance\<close> is the part the callback shares with the timer branch:
  \<^verbatim>\<open>findIndex\<close> gives -1 when no sentence has the start time.
\<close>

definition findIndex :: "ProcessedSentence list \<Rightarrow> ProcessedSentence \<Rightarrow> int" where
  "findIndex ss sentence =
     (case find (\<lambda>k. start (ss ! k) = start sentence) [0 ..< length ss] of
        None \<Rightarrow> - 1
      | Some k \<Rightarrow> int k)"

definition autoAdvance :: "ProcessedSentence \<Rightarrow> closure \<Rightarrow> app \<Rightarrow> app" where
  "autoAdvance sentence c st =
     (if cIsAutoPlay c then
        (let currentIndex = findIndex (cSentences c) sentence in
         if currentIndex < int (length (cSentences c)) - 1
         then setTimer 500 (NextSentence (cSentences c ! nat (currentIndex + 1)) c) st
         else st)
      else st)"

fun invoke :: "callback \<Rightarrow> app \<Rightarrow> app" where
  "invoke (OnSilence sentence c) st =
     autoAdvance sentence c
       (st\<lparr>invoked := invoked st @ [OnSilence sentence c],
           isPlaying := False, currentSentence := None\<rparr>)"

text \<open>
  One run of the interval's callback. The thresholded counter is tested after the
  increment; \<^verbatim>\<open>stopVoiceActivityDetection()\<close> is called before
  \<^verbatim>\<open>onSilenceDetectedRef.current\<close> is read.
\<close>

definition vadTick :: "frame \<Rightarrow> nat \<Rightarrow> bool \<Rightarrow> nat \<Rightarrow> nat \<Rightarrow> app \<Rightarrow> app" where
  "vadTick fr i capturedIsPlaying silenceCount speechCount st =
     (if \<not> analyserRef st \<or> \<not> capturedIsPlaying then st
      else if isSpeech fr then
        (let speechCount1 = speechCount + 1;
             silenceCount1 = (if speechThreshold \<le> speechCount1 then 0 else silenceCount)
         in setTask i (VadInterval capturedIsPlaying silenceCount1 speechCount1) st)
      else
        (let silenceCount1 = silenceCount + 1;
             st1 = setTask i (VadInterval capturedIsPlaying silenceCount1 0) st
         in if silenceThreshold \<le> silenceCount1 then
              (let st2 = stopVoiceActivityDetection st1
               in case onSilenceDetectedRef st2 of
                    None \<Rightarrow> st2
                  | Some cb \<Rightarrow> invoke cb st2)
            else st1))"

text \<open>\<^verbatim>\<open>checkAndStopAtSentenceEnd\<close>, with the captured \<^verbatim>\<open>sentenceEndTime\<close>.\<close>

definition checkAndStopAtSentenceEnd :: "real option \<Rightarrow> real \<Rightarrow> app \<Rightarrow> app" where
  "checkAndStopAtSentenceEnd capturedSentenceEndTime currentTime st =
     (case capturedSentenceEndTime of
        None \<Rightarrow> st
      | Some endTime \<Rightarrow>
          if audioRef st \<and> endTime \<le> currentTime then
            (let st1 = stopVoiceActivityDetection
                         (st\<lparr>commands := commands st @ [Pause], playerIsPlaying := False\<rparr>);
                 st2 = st1\<lparr>sentenceEndTime := None\<rparr>
             in (clearIfSet (endCheckInterval st2) st2)\<lparr>endCheckInterval := None\<rparr>)
          else st)"

section \<open>The player's handle\<close>

text \<open>
  \<open>stopCurrent\<close> is the block ``stop any currently playing audio and clean up'' that
  opens \<^verbatim>\<open>play\<close> and \<^verbatim>\<open>playWithVAD\<close> of the web player. \<^verbatim>\<open>if (endTime)\<close> is false for 0.
  The native player has no detector: its \<^verbatim>\<open>playWithVAD\<close> only plays.
\<close>

definition stopCurrent :: "app \<Rightarrow> app" where
  "stopCurrent st =
     (if playerIsPlaying st then
        (let st1 = stopVoiceActivityDetection (st\<lparr>commands := commands st @ [Pause]\<rparr>)
         in (clearIfSet (endCheckInterval st1) st1)\<lparr>endCheckInterval := None\<rparr>)
      else st)"

definition seekTo :: "real \<Rightarrow> app \<Rightarrow> app" where
  "seekTo timeInSeconds st =
     (if audioRef st then st\<lparr>commands := commands st @ [Seek timeInSeconds]\<rparr> else st)"

definition play :: "platform \<Rightarrow> app \<Rightarrow> app" where
  "play plat st =
     (if \<not> audioRef st then st
      else if plat = web then
        (let st1 = stopCurrent st
         in setTimer 0 PlayThen (st1\<lparr>commands := commands st1 @ [Play]\<rparr>))
      else st\<lparr>commands := commands st @ [Play], playerIsPlaying := True\<rparr>)"

definition pause :: "platform \<Rightarrow> app \<Rightarrow> app" where
  "pause plat st =
     (if \<not> audioRef st then st
      else if plat = web then
        (let st1 = stopVoiceActivityDetection
                     (st\<lparr>commands := commands st @ [Pause], playerIsPlaying := False\<rparr>);
             st2 = st1\<lparr>sentenceEndTime := None\<rparr>
         in (clearIfSet (endCheckInterval st2) st2)\<lparr>endCheckInterval := None\<rparr>)
      else st\<lparr>commands := commands st @ [Pause], playerIsPlaying := False\<rparr>)"

definition playWithVAD :: "platform \<Rightarrow> callback \<Rightarrow> real \<Rightarrow> app \<Rightarrow> app" where
  "playWithVAD plat onSilenceDetected endTime st =
     (if \<not> audioRef st then st
      else if plat = web then
        (let st1 = stopCurrent st;
             st2 = (if endTime \<noteq> 0 then
                      (let st3 = clearIfSet (endCheckInterval st1)
                                   (st1\<lparr>sentenceEndTime := Some endTime\<rparr>)
                       in (setTimer 100 (EndCheckInterval (sentenceEndTime st)) st3)
                            \<lparr>endCheckInterval := Some (nextId st3)\<rparr>)
                    else st1)
         in setTimer 0 (PlayThenVAD onSilenceDetected (playerIsPlaying st))
              (st2\<lparr>commands := commands st2 @ [Play]\<rparr>))
      else st\<lparr>commands := commands st @ [Play], playerIsPlaying := True\<rparr>)"

section \<open>The practice screen\<close>

text \<open>
  \<^verbatim>\<open>playSentenceOnly\<close>, run with the closure of the render it comes from. Both players
  define \<^verbatim>\<open>playWithVAD\<close>, so the detector branch is taken exactly on the web.
\<close>

definition playSentenceOnly :: "platform \<Rightarrow> closure \<Rightarrow> ProcessedSentence \<Rightarrow> app \<Rightarrow> app" where
  "playSentenceOnly plat c sentence st =
     (if \<not> audioPlayerRef st then st
      else
        (let st1 = seekTo (start sentence) (st\<lparr>currentSentence := Some sentence, isPlaying := True\<rparr>);
             endTime = start sentence + duration sentence
         in if plat = web then playWithVAD plat (OnSilence sentence c) endTime st1
            else
              (let st2 = play plat st1;
                   paddingMs = 200;
                   stopTimer = nextId st2;
                   st3 = setTimer (duration sentence * 1000 + paddingMs) (StopTimer sentence c) st2;
                   st4 = clearIfSet (sentenceTimerRef st3) st3
               in st4\<lparr>sentenceTimerRef := Some stopTimer\<rparr>)))"

text \<open>The closure of the current render.\<close>

definition render :: "app \<Rightarrow> closure" where
  "render st = \<lparr>cIsAutoPlay = isAutoPlay st, cSentences = scriptSentences st\<rparr>"

text \<open>
  \<^verbatim>\<open>speakSentence\<close> starts both speech services; the promise of
  \<^verbatim>\<open>speakWithExpoSpeech\<close> clears the two flags when it is resolved.
\<close>

definition speakSentence :: "string \<Rightarrow> app \<Rightarrow> app" where
  "speakSentence txt st =
     setTimer 0 SpeechDone
       (st\<lparr>isTTSPlaying := True, isGlobalPlaying := True,
           ttsCommands := ttsCommands st @ [SpeakWithExpoSpeech txt, SpeakWithOpenAI txt]\<rparr>)"

text \<open>\<^verbatim>\<open>toggleGlobalPlayback\<close>, the handler of the global play/pause button.\<close>

definition toggleGlobalPlayback :: "platform \<Rightarrow> app \<Rightarrow> app" where
  "toggleGlobalPlayback plat st =
     (if isGlobalPlaying st then
        (let st1 = (if isTTSPlaying st
                    then st\<lparr>ttsCommands := ttsCommands st @ [StopTTS], isTTSPlaying := False\<rparr>
                    else st);
             st2 = (if isAudioPlaying st \<and> audioPlayerRef st
                    then (pause plat st1)\<lparr>isAudioPlaying := False\<rparr>
                    else st1);
             st3 = (if isAutoPlay st then st2\<lparr>isAutoPlay := False\<rparr> else st2);
             st4 = (clearIfSet (sentenceTimerRef st3) st3)\<lparr>sentenceTimerRef := None\<rparr>
         in st4\<lparr>isGlobalPlaying := False\<rparr>)
      else if length (scriptSentences st) \<le> currentSentenceIndex st then st
      else
        (let sentence = scriptSentences st ! currentSentenceIndex st;
             st1 = st\<lparr>isGlobalPlaying := True\<rparr>
         in if playbackMode st = Some tts then speakSentence (text_field sentence) st1
            else if playbackMode st = Some original then playSentenceOnly plat (render st) sentence st1
            else playSentenceOnly plat (render st) sentence (st1\<lparr>playbackMode := Some original\<rparr>)))"

section \<open>Events\<close>

text \<open>
  \<open>fire plat occ i\<close> runs the callback of the pending job \<open>i\<close>. A timeout or a
  promise is removed before its callback runs; an interval stays until it is cleared.
\<close>

definition fire :: "platform \<Rightarrow> occasion \<Rightarrow> nat \<Rightarrow> app \<Rightarrow> app" where
  "fire plat occ i st =
     (case pendingJob i st of
        None \<Rightarrow> st
      | Some j \<Rightarrow>
          (case (task j, occ) of
             (VadInterval capturedIsPlaying silenceCount speechCount, Sampled fr) \<Rightarrow>
               vadTick fr i capturedIsPlaying silenceCount speechCount st
           | (EndCheckInterval capturedSentenceEndTime, AudioAt currentTime) \<Rightarrow>
               checkAndStopAtSentenceEnd capturedSentenceEndTime currentTime st
           | (VadFallback, Elapsed) \<Rightarrow>
               (let st1 = clearTimer i st
                in case onSilenceDetectedRef st1 of None \<Rightarrow> st1 | Some cb \<Rightarrow> invoke cb st1)
           | (StopTimer sentence c, Elapsed) \<Rightarrow>
               (let st1 = clearTimer i st
                in if audioPlayerRef st1
                   then autoAdvance sentence c
                          ((pause plat st1)\<lparr>isPlaying := False, currentSentence := None\<rparr>)
                   else st1)
           | (NextSentence sentence c, Elapsed) \<Rightarrow> playSentenceOnly plat c sentence (clearTimer i st)
           | (PlayThenVAD cb capturedIsPlaying, Resolved setup) \<Rightarrow>
               startVoiceActivityDetection plat capturedIsPlaying setup cb
                 ((clearTimer i st)\<lparr>playerIsPlaying := True\<rparr>)
           | (PlayThenVAD cb capturedIsPlaying, Rejected) \<Rightarrow> clearTimer i st
           | (PlayThen, Resolved setup) \<Rightarrow>
               (clearTimer i st)\<lparr>playerIsPlaying := True, sentenceEndTime := None\<rparr>
           | (PlayThen, Rejected) \<Rightarrow> clearTimer i st
           | (SpeechDone, Elapsed) \<Rightarrow>
               (clearTimer i st)\<lparr>isTTSPlaying := False, isGlobalPlaying := False\<rparr>
           | _ \<Rightarrow> st))"


text \<open>The listeners \<^verbatim>\<open>audio.onplay\<close> and \<^verbatim>\<open>audio.onpause\<close> of the web player.\<close>

definition audio_onplay :: "app \<Rightarrow> app" where
  "audio_onplay st = st\<lparr>playerIsPlaying := True\<rparr>"

definition audio_onpause :: "app \<Rightarrow> app" where
  "audio_onpause st = st\<lparr>playerIsPlaying := False\<rparr>"

text \<open>
  Ids are handed out in increasing order. \<open>fresh_ids\<close> says that every pending job
  and every timer ref is older than \<open>nextId\<close>, so that a new timer is the only job
  with its id; \<open>grows st st'\<close> says that \<open>st'\<close> has kept this from \<open>st\<close>.
\<close>

definition older :: "nat option \<Rightarrow> nat \<Rightarrow> bool" where
  "older r n = (case r of None \<Rightarrow> True | Some i \<Rightarrow> i < n)"

definition fresh_ids :: "app \<Rightarrow> bool" where
  "fresh_ids st =
     (list_all (\<lambda>j. jobId j < nextId st) (pending st) \<and>
      older (sentenceTimerRef st) (nextId st) \<and>
      older (vadIntervalRef st) (nextId st) \<and>
      older (endCheckInterval st) (nextId st))"

definition grows :: "app \<Rightarrow> app \<Rightarrow> bool" where
  "grows st st' = (fresh_ids st \<longrightarrow> fresh_ids st' \<and> nextId st \<le> nextId st')"

text \<open>
  The counters of a sampling interval, whether its ticks sample (the guard
  \<^verbatim>\<open>!analyserRef.current || !isPlaying\<close> is false), and a run of ticks.
\<close>

definition vadCounts :: "nat \<Rightarrow> app \<Rightarrow> (nat \<times> nat) option" where
  "vadCounts i st =
     (case pendingJob i st of
        None \<Rightarrow> None
      | Some j \<Rightarrow>
          (case task j of
             VadInterval capturedIsPlaying silenceCount speechCount \<Rightarrow> Some (silenceCount, speechCount)
           | _ \<Rightarrow> None))"

definition sampling :: "nat \<Rightarrow> app \<Rightarrow> bool" where
  "sampling i st =
     (case pendingJob i st of
        None \<Rightarrow> False
      | Some j \<Rightarrow>
          (case task j of
             VadInterval capturedIsPlaying silenceCount speechCount \<Rightarrow> analyserRef st \<and> capturedIsPlaying
           | _ \<Rightarrow> False))"

fun ticks :: "platform \<Rightarrow> frame list \<Rightarrow> nat \<Rightarrow> app \<Rightarrow> app" where
  "ticks plat [] i st = st"
| "ticks plat (fr # frs) i st = ticks plat frs i (fire plat (Sampled fr) i st)"


subsection \<open>Concrete states and frames\<close>

definition clip :: "real \<Rightarrow> real \<Rightarrow> ProcessedSentence" where
  "clip s d = \<lparr>text_field = ''...'', start = s, end_field = s + d, duration = d\<rparr>"

definition s10 :: ProcessedSentence where
  "s10 = clip 10 3"

definition s13 :: ProcessedSentence where
  "s13 = clip 13 2"

definition idle :: app where
  "idle =
     \<lparr>scriptSentences = [s10, s13], currentSentenceIndex = 0, isPlaying = False,
      isAutoPlay = False, isAudioPlaying = False, playbackMode = None, isTTSPlaying = False,
      isGlobalPlaying = False, currentSentence = None, sentenceTimerRef = None,
      audioPlayerRef = True, audioRef = True, playerIsPlaying = False, sentenceEndTime = None,
      vadIntervalRef = None, endCheckInterval = None, audioContextRef = False,
      analyserRef = False, onSilenceDetectedRef = None, pending = [], nextId = 1,
      commands = [], ttsCommands = [], invoked = []\<rparr>"

definition manual :: closure where
  "manual = render idle"

definition quiet :: frame where
  "quiet = \<lparr>timeDomain = [128], frequencyData = []\<rparr>"

definition loud :: frame where
  "loud = \<lparr>timeDomain = [255], frequencyData = replicate 158 255\<rparr>"

definition aborted_then_armed :: app where
  "aborted_then_armed =
     fire web (Resolved GraphBuilt) 4
       (fire web Rejected 2
          (playSentenceOnly web manual s13
             (audio_onplay (playSentenceOnly web manual s10 idle))))"

definition no_web_audio_twice :: app where
  "no_web_audio_twice =
     fire web (Resolved SetupThrows) 5
       (playSentenceOnly web manual s13
          (fire web (Resolved SetupThrows) 2
             (playSentenceOnly web manual s10 idle)))"

definition original_playing :: app where
  "original_playing = toggleGlobalPlayback ios (idle\<lparr>playbackMode := Some original\<rparr>)"

text \<open>
  On the web in original mode: a sentence is started from the list and its promise is
  resolved; the global button, which still reads Play, starts the same sentence again,
  and the second promise is resolved with the graph built.
\<close>

definition replayed_on_web :: app where
  "replayed_on_web =
     fire web (Resolved GraphBuilt) 5
       (toggleGlobalPlayback web
          (fire web (Resolved GraphBuilt) 2
             (playSentenceOnly web manual s10 (idle\<lparr>playbackMode := Some original\<rparr>))))"

chapter \<open>Theorems\<close>

section \<open>The base64 fallback encoder\<close>

text \<open>
  C10. The claim: for every byte array the fallback encoder gives the RFC 4648
  encoding, with \<^verbatim>\<open>=\<close> padding when the length is not a multiple of 3. On the one
  byte \<open>0x4D\<close> (the letter M) the encoder returns \<^verbatim>\<open>TQAA\<close> where RFC 4648 gives
  \<^verbatim>\<open>TQ==\<close>: after the last group \<^verbatim>\<open>i\<close> equals \<^verbatim>\<open>buffer.length\<close>, so both padding
  tests \<^verbatim>\<open>i - 2 < buffer.length\<close> and \<^verbatim>\<open>i - 1 < buffer.length\<close> are always true and
  the \<^verbatim>\<open>'='\<close> branches are never taken.
\<close>

theorem arrayBufferToBase64_one_byte_unpadded:
  "arrayBufferToBase64 [0x4D] = ''TQAA'' \<and> rfc4648_base64 [0x4D] = ''TQ==''"
  by (simp add: arrayBufferToBase64_def bitmap_of_def sextet_def charAt_def chars_def
      rfc4648_char_def)

subsection \<open>Where the encoder and RFC 4648 agree\<close>

text \<open>
  The four characters of a group are those of RFC 4648: the bitmap of three bytes is
  below \<open>2 ^ 24\<close>, so the arithmetic shift never sees a sign bit. The encoder is
  therefore right on every buffer made of whole groups
  (\<open>arrayBufferToBase64_whole_groups\<close>). Its output never holds \<^verbatim>\<open>=\<close>
  (\<open>arrayBufferToBase64_never_pads\<close>), so it is wrong on every other buffer
  (\<open>arrayBufferToBase64_partial_group\<close>).
\<close>

lemma mask_63: "(63 :: 32 word) = mask 6"
  by (simp add: mask_eq_exp_minus_1)

lemma sextet_18_bits: "signed_drop_bit 18 (bitmap_of a b c) AND 63 = ucast (drop_bit 2 a)"
  unfolding mask_63 bitmap_of_def
  apply (rule bit_word_eqI)
  apply (auto simp add: bit_simps dest: bit_imp_le_length)
  done

lemma sextet_12_bits: "signed_drop_bit 12 (bitmap_of a b c) AND 63
  = push_bit 4 (ucast (take_bit 2 a)) OR ucast (drop_bit 4 b)"
  unfolding mask_63 bitmap_of_def
  apply (rule bit_word_eqI)
  apply (auto simp add: bit_simps dest: bit_imp_le_length)
  done

lemma sextet_6_bits: "signed_drop_bit 6 (bitmap_of a b c) AND 63
  = push_bit 2 (ucast (take_bit 4 b)) OR ucast (drop_bit 6 c)"
  unfolding mask_63 bitmap_of_def
  apply (rule bit_word_eqI)
  apply (auto simp add: bit_simps dest: bit_imp_le_length)
  done

lemma sextet_0_bits: "signed_drop_bit 0 (bitmap_of a b c) AND 63 = ucast (take_bit 6 c)"
  unfolding mask_63 bitmap_of_def
  apply (rule bit_word_eqI)
  apply (auto simp add: bit_simps dest: bit_imp_le_length)
  done


lemma unat_byte_bit: "bit (unat (a :: byte)) n \<Longrightarrow> n < 8"
  by (simp add: bit_unsigned_iff) (auto dest: bit_imp_le_length)

lemma unat_sextet_18: "unat (ucast (drop_bit 2 (a :: byte)) :: 32 word) = drop_bit 2 (unat a)"
  by (rule bit_eqI) (auto simp add: bit_simps bit_unsigned_iff dest: bit_imp_le_length)

lemma unat_sextet_0: "unat (ucast (take_bit 6 (c :: byte)) :: 32 word) = take_bit 6 (unat c)"
  by (rule bit_eqI) (auto simp add: bit_simps bit_unsigned_iff dest: bit_imp_le_length)

lemma unat_sextet_12: "unat (push_bit 4 (ucast (take_bit 2 (a :: byte))) OR ucast (drop_bit 4 (b :: byte)) :: 32 word)
    = push_bit 4 (take_bit 2 (unat a)) OR drop_bit 4 (unat b)"
  by (rule bit_eqI) (auto simp add: bit_simps bit_unsigned_iff dest: bit_imp_le_length)

lemma unat_sextet_6: "unat (push_bit 2 (ucast (take_bit 4 (a :: byte))) OR ucast (drop_bit 6 (b :: byte)) :: 32 word)
    = push_bit 2 (take_bit 4 (unat a)) OR drop_bit 6 (unat b)"
  by (rule bit_eqI) (auto simp add: bit_simps bit_unsigned_iff dest: bit_imp_le_length)

lemma or_add: "push_bit k (take_bit j (x :: nat)) OR drop_bit (8 - k) (unat (y :: byte))
    = take_bit j x * 2 ^ k + drop_bit (8 - k) (unat y)"
  if "k \<le> 8"
proof -
  have "push_bit k (take_bit j x) + drop_bit (8 - k) (unat y)
      = push_bit k (take_bit j x) OR drop_bit (8 - k) (unat y)"
  proof (rule disjunctive_add)
    fix n
    show "\<not> bit (push_bit k (take_bit j x)) n \<or> \<not> bit (drop_bit (8 - k) (unat y)) n"
      using that unat_byte_bit [of y "8 - k + n"] by (auto simp add: bit_simps)
  qed
  then show ?thesis by (simp add: push_bit_eq_mult)
qed

lemma sextet_18_value: "unat (signed_drop_bit 18 (bitmap_of a b c) AND 63) = unat a div 4"
  unfolding sextet_18_bits unat_sextet_18 by (simp add: drop_bit_eq_div)

lemma sextet_0_value: "unat (signed_drop_bit 0 (bitmap_of a b c) AND 63) = unat c mod 64"
  unfolding sextet_0_bits unat_sextet_0 by (simp add: take_bit_eq_mod)

lemma sextet_12_value: "unat (signed_drop_bit 12 (bitmap_of a b c) AND 63)
    = (unat a mod 4) * 16 + unat b div 16"
  unfolding sextet_12_bits unat_sextet_12 using or_add [of 4 2 "unat a" b]
  by (simp add: take_bit_eq_mod drop_bit_eq_div)

lemma sextet_6_value: "unat (signed_drop_bit 6 (bitmap_of a b c) AND 63)
    = (unat b mod 16) * 4 + unat c div 64"
  unfolding sextet_6_bits unat_sextet_6 using or_add [of 2 4 "unat b" c]
  by (simp add: take_bit_eq_mod drop_bit_eq_div)


lemma unat_byte_less: "unat (a :: byte) < 256"
  using unsigned_less [of a] by simp

lemma sextet_18: "sextet (bitmap_of a b c) 18 = [rfc4648_char (unat a div 4)]"
  using unat_byte_less [of a]
  by (simp add: sextet_def sextet_18_value charAt_def rfc4648_char_def chars_def)

lemma sextet_12: "sextet (bitmap_of a b c) 12 = [rfc4648_char ((unat a mod 4) * 16 + unat b div 16)]"
proof -
  have "unat a mod 4 < 4" "unat b div 16 < 16"
    using unat_byte_less [of b] by simp_all
  then have "(unat a mod 4) * 16 + unat b div 16 < 64" by linarith
  then show ?thesis
    by (simp add: sextet_def sextet_12_value charAt_def rfc4648_char_def chars_def)
qed

lemma sextet_6: "sextet (bitmap_of a b c) 6 = [rfc4648_char ((unat b mod 16) * 4 + unat c div 64)]"
proof -
  have "unat b mod 16 < 16" "unat c div 64 < 4"
    using unat_byte_less [of c] by simp_all
  then have "(unat b mod 16) * 4 + unat c div 64 < 64" by linarith
  then show ?thesis
    by (simp add: sextet_def sextet_6_value charAt_def rfc4648_char_def chars_def)
qed

lemma sextet_0: "sextet (bitmap_of a b c) 0 = [rfc4648_char (unat c mod 64)]"
  unfolding sextet_def sextet_0_value by (simp add: charAt_def rfc4648_char_def chars_def)

lemma b64_loop_groups:
  "\<forall>pre acc. length rest mod 3 = 0 \<longrightarrow>
     b64_loop (pre @ rest) (length pre) acc = acc @ rfc4648_base64 rest"
proof (induction rest rule: rfc4648_base64.induct)
  case 1
  show ?case by (subst b64_loop.simps) simp
next
  case (2 a)
  show ?case by simp
next
  case (3 a b)
  show ?case by simp
next
  case (4 a b c rest)
  show ?case
  proof (intro allI impI)
    fix pre :: "byte list" and acc :: string
    assume "length (a # b # c # rest) mod 3 = 0"
    then have r: "length rest mod 3 = 0" by simp
    have "b64_loop (pre @ a # b # c # rest) (length pre) acc
        = b64_loop ((pre @ [a, b, c]) @ rest) (length (pre @ [a, b, c]))
            (acc @ [rfc4648_char (unat a div 4),
               rfc4648_char ((unat a mod 4) * 16 + unat b div 16),
               rfc4648_char ((unat b mod 16) * 4 + unat c div 64),
               rfc4648_char (unat c mod 64)])"
      by (subst b64_loop.simps)
        (simp add: nth_append sextet_18 sextet_12 sextet_6 sextet_0 del: b64_loop.simps)
    also have "\<dots> = (acc @ [rfc4648_char (unat a div 4),
               rfc4648_char ((unat a mod 4) * 16 + unat b div 16),
               rfc4648_char ((unat b mod 16) * 4 + unat c div 64),
               rfc4648_char (unat c mod 64)]) @ rfc4648_base64 rest"
      by (rule 4 [rule_format, OF r])
    finally show "b64_loop (pre @ a # b # c # rest) (length pre) acc
        = acc @ rfc4648_base64 (a # b # c # rest)"
      by simp
  qed
qed

lemma arrayBufferToBase64_whole_groups:
  "length buffer mod 3 = 0 \<Longrightarrow> arrayBufferToBase64 buffer = rfc4648_base64 buffer"
  using b64_loop_groups [rule_format, of buffer "[]" "[]"]
  by (simp add: arrayBufferToBase64_def del: b64_loop.simps)


lemma charAt_alphabet: "set (charAt chars n) \<subseteq> set chars"
  by (auto simp add: charAt_def)

lemma sextet_alphabet: "set (sextet bitmap k) \<subseteq> set chars"
  unfolding sextet_def by (rule charAt_alphabet)

lemma b64_loop_pad_tests:
  "i \<le> length buffer \<Longrightarrow> set acc \<subseteq> set chars \<Longrightarrow> set (b64_loop buffer i acc) \<subseteq> set chars"
proof (induction buffer i acc rule: b64_loop.induct)
  case (1 buffer i result)
  show ?case
  proof (cases "i < length buffer")
    case False
    then show ?thesis using 1(3) by (subst b64_loop.simps) simp
  next
    case True
    show ?thesis
      apply (subst b64_loop.simps)
      apply (simp only: True if_True Let_def)
      apply (rule 1(1) [OF True refl refl refl refl refl refl refl refl refl refl refl])
      using True 1(3) sextet_alphabet
       apply (auto simp del: b64_loop.simps)
      done
  qed
qed


lemma arrayBufferToBase64_never_pads: "CHR ''='' \<notin> set (arrayBufferToBase64 buffer)"
proof -
  have "set (arrayBufferToBase64 buffer) \<subseteq> set chars"
    unfolding arrayBufferToBase64_def by (rule b64_loop_pad_tests) simp_all
  moreover have "CHR ''='' \<notin> set chars"
    by (simp add: chars_def)
  ultimately show ?thesis by blast
qed

lemma rfc4648_base64_pads:
  "length buffer mod 3 \<noteq> 0 \<Longrightarrow> CHR ''='' \<in> set (rfc4648_base64 buffer)"
  by (induction buffer rule: rfc4648_base64.induct) simp_all

lemma arrayBufferToBase64_partial_group:
  "length buffer mod 3 \<noteq> 0 \<Longrightarrow> arrayBufferToBase64 buffer \<noteq> rfc4648_base64 buffer"
  using arrayBufferToBase64_never_pads [of buffer] rfc4648_base64_pads [of buffer] by auto

section \<open>The transcript source resolver\<close>

subsection \<open>What each function does to the cache and to the log\<close>

lemma request_simps [simp]:
  "sourceCache (request r w) = sourceCache w"
  "calls (request r w) = calls w @ [r]"
  by (simp_all add: request_def)

lemma rethrow_simps [simp]:
  "snd (rethrow p r) = snd r"
  "(fst (rethrow p r) = Inr v) = (fst r = Inr v)"
  by (auto simp add: rethrow_def split: prod.splits sum.splits)

lemma getYouTubeSubtitles_world:
  "snd (getYouTubeSubtitles env v u w) = request (SubtitlesFetch v u) w"
  by (simp add: getYouTubeSubtitles_def Let_def split: subtitles_response.split option.split)

lemma getYouTubeSubtitles_source:
  "fst (getYouTubeSubtitles env v u w) = Inr r \<Longrightarrow> source r = youtube"
  by (auto simp add: getYouTubeSubtitles_def Let_def split: subtitles_response.splits option.splits if_splits)

lemma getWhisperFromCache_world:
  "snd (getWhisperFromCache env v w) = request (CachedFetch v) w"
  by (simp add: getWhisperFromCache_def Let_def split: cached_response.split option.split)

lemma getWhisperFromCache_source:
  "fst (getWhisperFromCache env v w) = Some r \<Longrightarrow> source r = whisper"
  by (auto simp add: getWhisperFromCache_def whisper_result_def Let_def split: cached_response.splits option.splits if_splits)

lemma extractAudio_cache:
  "sourceCache (snd (extractAudio env plat v w)) = sourceCache w"
  by (simp add: extractAudio_def extractAudio_try_def Let_def
      split: audio_response.split download_response.split info_response.split)

lemma extractAudio_calls:
  "\<exists>rest. calls (snd (extractAudio env plat v w)) = calls w @ AudioUrlFetch v # rest"
  by (simp add: extractAudio_def extractAudio_try_def Let_def
      split: audio_response.split download_response.split info_response.split)

lemma uploadAudio_cache:
  "sourceCache (snd (uploadAudio env plat v a w)) = sourceCache w"
  by (simp add: uploadAudio_def Let_def split: transcribe_response.split delete_response.split)

lemma uploadAudio_calls:
  "\<exists>rest. calls (snd (uploadAudio env plat v a w)) = calls w @ TranscribePost v # rest"
  by (simp add: uploadAudio_def Let_def split: transcribe_response.split delete_response.split)

lemma uploadAudio_source:
  "fst (uploadAudio env plat v a w) = Inr r \<Longrightarrow>
     source r = whisper \<and> produced_by whisper (last (calls (snd (uploadAudio env plat v a w))))"
  by (auto simp add: uploadAudio_def whisper_result_def Let_def
      split: transcribe_response.splits delete_response.splits if_splits)

lemma transcribeWithWhisper_try_cache:
  "sourceCache (snd (transcribeWithWhisper_try env plat v w)) = sourceCache w"
proof -
  obtain c w1 where g: "getWhisperFromCache env v w = (c, w1)"
    by (cases "getWhisperFromCache env v w")
  then have w1: "sourceCache w1 = sourceCache w"
    using getWhisperFromCache_world [of env v w] by simp
  obtain a w2 where ea: "extractAudio env plat v w1 = (a, w2)"
    by (cases "extractAudio env plat v w1")
  then have w2: "sourceCache w2 = sourceCache w"
    using extractAudio_cache [of env plat v w1] w1 by simp
  show ?thesis
    using g w1 ea w2
    by (simp add: transcribeWithWhisper_try_def Let_def uploadAudio_cache
        split: option.split sum.split info_response.split)
qed

lemma transcribeWithWhisper_cache:
  "sourceCache (snd (transcribeWithWhisper env plat v w)) = sourceCache w"
  by (simp add: transcribeWithWhisper_def transcribeWithWhisper_try_cache)

lemma transcribeWithWhisper_try_calls:
  "\<exists>rest. calls (snd (transcribeWithWhisper_try env plat v w)) = calls w @ CachedFetch v # rest"
proof -
  obtain c w1 where g: "getWhisperFromCache env v w = (c, w1)"
    by (cases "getWhisperFromCache env v w")
  then have w1: "calls w1 = calls w @ [CachedFetch v]"
    using getWhisperFromCache_world [of env v w] by simp
  obtain a w2 where ea: "extractAudio env plat v w1 = (a, w2)"
    by (cases "extractAudio env plat v w1")
  then obtain r2 where w2: "calls w2 = calls w @ CachedFetch v # AudioUrlFetch v # r2"
    using extractAudio_calls [of env plat v w1] w1 by auto
  obtain r3 where u2: "calls (snd (uploadAudio env plat v (projr a) w2)) = calls w2 @ TranscribePost v # r3"
    using uploadAudio_calls by blast
  obtain r4 where u3: "calls (snd (uploadAudio env plat v (projr a) (request (GetInfo (projr a)) w2)))
       = calls w2 @ GetInfo (projr a) # TranscribePost v # r4"
    using uploadAudio_calls [of env plat v "projr a" "request (GetInfo (projr a)) w2"] by auto
  show ?thesis
    using g w1 ea w2 u2 u3
    by (auto simp add: transcribeWithWhisper_try_def Let_def
        split: option.split sum.split info_response.split)
qed

lemma transcribeWithWhisper_calls:
  "\<exists>rest. calls (snd (transcribeWithWhisper env plat v w)) = calls w @ CachedFetch v # rest"
  by (simp add: transcribeWithWhisper_def transcribeWithWhisper_try_calls)

lemma transcribeWithWhisper_try_source:
  assumes "fst (transcribeWithWhisper_try env plat v w) = Inr r"
  shows "source r = whisper \<and>
         produced_by whisper (last (calls (snd (transcribeWithWhisper_try env plat v w))))"
proof -
  obtain c w1 where g: "getWhisperFromCache env v w = (c, w1)"
    by (cases "getWhisperFromCache env v w")
  then have w1: "calls w1 = calls w @ [CachedFetch v]"
    using getWhisperFromCache_world [of env v w] by simp
  have c: "c = Some r \<Longrightarrow> source r = whisper"
    using g getWhisperFromCache_source [of env v w r] by simp
  obtain a w2 where ea: "extractAudio env plat v w1 = (a, w2)"
    by (cases "extractAudio env plat v w1")
  show ?thesis
    using assms g w1 c ea uploadAudio_source [of env plat v _ _ r]
    by (auto simp add: transcribeWithWhisper_try_def Let_def
        split: option.splits sum.splits info_response.splits if_splits)
qed

lemma transcribeWithWhisper_source:
  assumes "fst (transcribeWithWhisper env plat v w) = Inr r"
  shows "source r = whisper \<and>
         produced_by whisper (last (calls (snd (transcribeWithWhisper env plat v w))))"
  using assms transcribeWithWhisper_try_source [of env plat v w r]
  by (simp add: transcribeWithWhisper_def)


lemma whisperFallback_ok:
  assumes "fst (whisperFallback env plat v w) = Inr r"
  shows "sourceCache (snd (whisperFallback env plat v w)) = (sourceCache w)(v \<mapsto> source r) \<and>
         produced_by (source r) (last (calls (snd (whisperFallback env plat v w))))"
proof -
  obtain a w1 where t: "transcribeWithWhisper env plat v w = (a, w1)"
    by (cases "transcribeWithWhisper env plat v w")
  have c: "sourceCache w1 = sourceCache w"
    using t transcribeWithWhisper_cache [of env plat v w] by simp
  have s: "a = Inr r \<Longrightarrow> source r = whisper \<and> produced_by whisper (last (calls w1))"
    using t transcribeWithWhisper_source [of env plat v w r] by simp
  show ?thesis
    using assms t c s by (auto simp add: whisperFallback_def split: sum.splits)
qed

lemma whisperFallback_err:
  assumes "fst (whisperFallback env plat v w) = Inl e"
  shows "sourceCache (snd (whisperFallback env plat v w)) = sourceCache w"
proof -
  obtain a w1 where t: "transcribeWithWhisper env plat v w = (a, w1)"
    by (cases "transcribeWithWhisper env plat v w")
  have c: "sourceCache w1 = sourceCache w"
    using t transcribeWithWhisper_cache [of env plat v w] by simp
  show ?thesis
    using assms t c by (auto simp add: whisperFallback_def split: sum.splits)
qed

lemma whisperFallback_calls:
  "\<exists>rest. calls (snd (whisperFallback env plat v w)) = calls w @ CachedFetch v # rest"
proof -
  obtain a w1 where t: "transcribeWithWhisper env plat v w = (a, w1)"
    by (cases "transcribeWithWhisper env plat v w")
  then show ?thesis
    using transcribeWithWhisper_calls [of env plat v w]
    by (auto simp add: whisperFallback_def split: sum.splits)
qed

lemma fallbackChain_ok:
  assumes "fst (fallbackChain env plat v w) = Inr r"
  shows "sourceCache (snd (fallbackChain env plat v w)) = (sourceCache w)(v \<mapsto> source r) \<and>
         produced_by (source r) (last (calls (snd (fallbackChain env plat v w))))"
proof -
  obtain a w1 where y: "getYouTubeSubtitles env v True w = (a, w1)"
    by (cases "getYouTubeSubtitles env v True w")
  have w1: "sourceCache w1 = sourceCache w" "calls w1 = calls w @ [SubtitlesFetch v True]"
    using y getYouTubeSubtitles_world [of env v True w] by simp_all
  have s: "\<And>r. a = Inr r \<Longrightarrow> source r = youtube"
    using y getYouTubeSubtitles_source [of env v True w] by simp
  show ?thesis
    using assms y w1 s whisperFallback_ok [of env plat v w1 r]
    by (auto simp add: fallbackChain_def split: sum.splits if_splits)
qed

lemma fallbackChain_err:
  assumes "fst (fallbackChain env plat v w) = Inl e"
  shows "sourceCache (snd (fallbackChain env plat v w)) = sourceCache w"
proof -
  obtain a w1 where y: "getYouTubeSubtitles env v True w = (a, w1)"
    by (cases "getYouTubeSubtitles env v True w")
  have w1: "sourceCache w1 = sourceCache w"
    using y getYouTubeSubtitles_world [of env v True w] by simp
  show ?thesis
    using assms y w1 whisperFallback_err [of env plat v w1 e]
    by (auto simp add: fallbackChain_def split: sum.splits if_splits)
qed

lemma fallbackChain_calls:
  "\<exists>rest. calls (snd (fallbackChain env plat v w)) = calls w @ SubtitlesFetch v True # rest"
proof -
  obtain a w1 where y: "getYouTubeSubtitles env v True w = (a, w1)"
    by (cases "getYouTubeSubtitles env v True w")
  have w1: "w1 = request (SubtitlesFetch v True) w"
    using y getYouTubeSubtitles_world [of env v True w] by simp
  obtain rest where "calls (snd (whisperFallback env plat v w1)) = calls w1 @ CachedFetch v # rest"
    using whisperFallback_calls by blast
  with y w1 show ?thesis
    by (auto simp add: fallbackChain_def split: sum.splits)
qed

lemma getTranscriptData_ok:
  assumes "fst (getTranscriptData env plat v w) = Inr r"
  shows "sourceCache (snd (getTranscriptData env plat v w)) = (sourceCache w)(v \<mapsto> source r) \<and>
         produced_by (source r) (last (calls (snd (getTranscriptData env plat v w))))"
proof (cases "sourceCache w v")
  case None
  with assms fallbackChain_ok [of env plat v w r] show ?thesis
    by (simp add: getTranscriptData_def)
next
  case (Some pref)
  show ?thesis
  proof (cases pref)
    case youtube
    obtain a w1 where y: "getYouTubeSubtitles env v True w = (a, w1)"
      by (cases "getYouTubeSubtitles env v True w")
    have w1: "sourceCache w1 = sourceCache w" "calls w1 = calls w @ [SubtitlesFetch v True]"
      using y getYouTubeSubtitles_world [of env v True w] by simp_all
    have s: "\<And>r. a = Inr r \<Longrightarrow> source r = youtube"
      using y getYouTubeSubtitles_source [of env v True w] by simp
    show ?thesis
      using assms Some youtube y w1 s fallbackChain_ok [of env plat v w1 r]
      by (auto simp add: getTranscriptData_def map_upd_triv split: sum.splits if_splits)
  next
    case whisper
    obtain a w1 where t: "transcribeWithWhisper env plat v w = (a, w1)"
      by (cases "transcribeWithWhisper env plat v w")
    have c: "sourceCache w1 = sourceCache w"
      using t transcribeWithWhisper_cache [of env plat v w] by simp
    have s: "\<And>r. a = Inr r \<Longrightarrow> source r = whisper \<and> produced_by whisper (last (calls w1))"
      using t transcribeWithWhisper_source [of env plat v w] by simp
    show ?thesis
      using assms Some whisper t c s fallbackChain_ok [of env plat v w1 r]
      by (auto simp add: getTranscriptData_def map_upd_triv split: sum.splits)
  qed
qed

lemma getTranscriptData_err:
  assumes "fst (getTranscriptData env plat v w) = Inl e"
  shows "sourceCache (snd (getTranscriptData env plat v w)) = sourceCache w"
proof (cases "sourceCache w v")
  case None
  with assms fallbackChain_err [of env plat v w e] show ?thesis
    by (simp add: getTranscriptData_def)
next
  case (Some pref)
  show ?thesis
  proof (cases pref)
    case youtube
    obtain a w1 where y: "getYouTubeSubtitles env v True w = (a, w1)"
      by (cases "getYouTubeSubtitles env v True w")
    have w1: "sourceCache w1 = sourceCache w"
      using y getYouTubeSubtitles_world [of env v True w] by simp
    show ?thesis
      using assms Some youtube y w1 fallbackChain_err [of env plat v w1 e]
      by (auto simp add: getTranscriptData_def split: sum.splits if_splits)
  next
    case whisper
    obtain a w1 where t: "transcribeWithWhisper env plat v w = (a, w1)"
      by (cases "transcribeWithWhisper env plat v w")
    have c: "sourceCache w1 = sourceCache w"
      using t transcribeWithWhisper_cache [of env plat v w] by simp
    show ?thesis
      using assms Some whisper t c fallbackChain_err [of env plat v w1 e]
      by (auto simp add: getTranscriptData_def split: sum.splits)
  qed
qed

lemma getTranscriptData_youtube_first:
  assumes "sourceCache w v = Some youtube"
  shows "\<exists>rest. calls (snd (getTranscriptData env plat v w)) = calls w @ SubtitlesFetch v True # rest"
proof -
  obtain a w1 where y: "getYouTubeSubtitles env v True w = (a, w1)"
    by (cases "getYouTubeSubtitles env v True w")
  have w1: "calls w1 = calls w @ [SubtitlesFetch v True]"
    using y getYouTubeSubtitles_world [of env v True w] by simp
  obtain rest where "calls (snd (fallbackChain env plat v w1)) = calls w1 @ SubtitlesFetch v True # rest"
    using fallbackChain_calls by blast
  with assms y w1 show ?thesis
    by (auto simp add: getTranscriptData_def split: sum.splits)
qed

text \<open>
  C7. Whatever the services reply: when \<open>getTranscriptData\<close> returns a transcript,
  \<open>sourceCache\<close> afterwards is the old map with the video id set to the source of that
  transcript, and the last request made is one that delivers a transcript of that
  source; when it throws, \<open>sourceCache\<close> is unchanged.
\<close>

theorem getTranscriptData_records_winning_source:
  assumes "getTranscriptData env plat videoId w = (res, w')"
  shows "case res of
           Inr r \<Rightarrow> sourceCache w' = (sourceCache w)(videoId \<mapsto> source r) \<and>
                    produced_by (source r) (last (calls w'))
         | Inl e \<Rightarrow> sourceCache w' = sourceCache w"
  using assms getTranscriptData_ok [of env plat videoId w] getTranscriptData_err [of env plat videoId w]
  by (auto split: sum.splits)

text \<open>
  C5. If a resolution of \<open>M\<close> returned a transcript from captions, then in the state
  it left, the next resolution of \<open>M\<close> (with any services, on any platform) makes the
  captions request, with text enhancement, as its first request; every transcription
  request comes later.
\<close>

theorem caption_affinity_tries_captions_first:
  assumes "getTranscriptData env plat M w = (Inr r, w1)" and "source r = youtube"
  shows "\<exists>rest. calls (snd (getTranscriptData env' plat' M w1)) =
                  calls w1 @ SubtitlesFetch M True # rest"
proof -
  have "sourceCache w1 M = Some youtube"
    using assms getTranscriptData_ok [of env plat M w r] by simp
  then show ?thesis by (rule getTranscriptData_youtube_first)
qed

subsection \<open>A video whose preferred source is the transcription\<close>

lemma getWhisperFromCache_timeout:
  "cached env (calls w) = CachedReply t ok body \<Longrightarrow> 5000 \<le> t \<Longrightarrow>
     fst (getWhisperFromCache env v w) = None"
  by (simp add: getWhisperFromCache_def Let_def)

lemma extractAudio_no_captions:
  "\<exists>rest. calls (snd (extractAudio env plat v w)) = calls w @ rest \<and>
     (\<forall>u b. SubtitlesFetch u b \<notin> set rest)"
  by (simp add: extractAudio_def extractAudio_try_def Let_def
      split: audio_response.split download_response.split info_response.split)

lemma uploadAudio_no_captions:
  "\<exists>rest. calls (snd (uploadAudio env plat v a w)) = calls w @ rest \<and>
     (\<forall>u b. SubtitlesFetch u b \<notin> set rest)"
  by (simp add: uploadAudio_def Let_def split: transcribe_response.split delete_response.split)

lemma transcribeWithWhisper_no_captions:
  "\<exists>rest. calls (snd (transcribeWithWhisper env plat v w)) = calls w @ rest \<and>
     (\<forall>u b. SubtitlesFetch u b \<notin> set rest)"
proof -
  obtain c w1 where g: "getWhisperFromCache env v w = (c, w1)"
    by (cases "getWhisperFromCache env v w")
  then have w1: "calls w1 = calls w @ [CachedFetch v]"
    using getWhisperFromCache_world [of env v w] by simp
  obtain a w2 where ea: "extractAudio env plat v w1 = (a, w2)"
    by (cases "extractAudio env plat v w1")
  then obtain r2 where w2: "calls w2 = calls w1 @ r2" "\<forall>u b. SubtitlesFetch u b \<notin> set r2"
    using extractAudio_no_captions [of env plat v w1] by auto
  obtain r3 where u2: "calls (snd (uploadAudio env plat v (projr a) w2)) = calls w2 @ r3"
      "\<forall>u b. SubtitlesFetch u b \<notin> set r3"
    using uploadAudio_no_captions by blast
  obtain r4 where u3: "calls (snd (uploadAudio env plat v (projr a) (request (GetInfo (projr a)) w2)))
       = calls w2 @ GetInfo (projr a) # r4" "\<forall>u b. SubtitlesFetch u b \<notin> set r4"
    using uploadAudio_no_captions [of env plat v "projr a" "request (GetInfo (projr a)) w2"] by auto
  show ?thesis
    using g w1 ea w2 u2 u3
    by (auto simp add: transcribeWithWhisper_def transcribeWithWhisper_try_def Let_def
        split: option.split sum.split info_response.split)
qed

lemma transcribeWithWhisper_hit:
  assumes "cached env (calls w) = CachedReply t True (Some body)" and "t < 5000"
  shows "transcribeWithWhisper env plat v w = (Inr (whisper_result body), request (CachedFetch v) w)"
  using assms
  by (simp add: transcribeWithWhisper_def transcribeWithWhisper_try_def getWhisperFromCache_def
      rethrow_def Let_def)

lemma transcribeWithWhisper_miss:
  assumes "fst (getWhisperFromCache env v w) = None"
  shows "\<exists>rest. calls (snd (transcribeWithWhisper env plat v w)) =
           calls w @ CachedFetch v # AudioUrlFetch v # rest"
proof -
  obtain c w1 where g: "getWhisperFromCache env v w = (c, w1)"
    by (cases "getWhisperFromCache env v w")
  then have w1: "calls w1 = calls w @ [CachedFetch v]"
    using getWhisperFromCache_world [of env v w] by simp
  obtain a w2 where ea: "extractAudio env plat v w1 = (a, w2)"
    by (cases "extractAudio env plat v w1")
  then obtain r2 where w2: "calls w2 = calls w @ CachedFetch v # AudioUrlFetch v # r2"
    using extractAudio_calls [of env plat v w1] w1 by auto
  obtain r3 where u2: "calls (snd (uploadAudio env plat v (projr a) w2)) = calls w2 @ TranscribePost v # r3"
    using uploadAudio_calls by blast
  obtain r4 where u3: "calls (snd (uploadAudio env plat v (projr a) (request (GetInfo (projr a)) w2)))
       = calls w2 @ GetInfo (projr a) # TranscribePost v # r4"
    using uploadAudio_calls [of env plat v "projr a" "request (GetInfo (projr a)) w2"] by auto
  show ?thesis
    using assms g w1 ea w2 u2 u3
    by (auto simp add: transcribeWithWhisper_def transcribeWithWhisper_try_def Let_def
        split: option.split sum.split info_response.split)
qed

lemma getTranscriptData_whisper_calls:
  assumes "sourceCache w v = Some whisper"
  shows "\<exists>rest. calls (snd (getTranscriptData env plat v w)) =
           calls (snd (transcribeWithWhisper env plat v w)) @ rest"
proof -
  obtain a w1 where t: "transcribeWithWhisper env plat v w = (a, w1)"
    by (cases "transcribeWithWhisper env plat v w")
  obtain rest where "calls (snd (fallbackChain env plat v w1)) = calls w1 @ SubtitlesFetch v True # rest"
    using fallbackChain_calls by blast
  with assms t show ?thesis
    by (auto simp add: getTranscriptData_def split: sum.splits)
qed

lemma getTranscriptData_whisper_ok:
  assumes "sourceCache w v = Some whisper" and "fst (transcribeWithWhisper env plat v w) = Inr r"
  shows "getTranscriptData env plat v w = transcribeWithWhisper env plat v w"
  using assms by (auto simp add: getTranscriptData_def split: prod.splits sum.splits)


lemma transcribeWithWhisper_submits:
  assumes "fst (getWhisperFromCache env v w) = None"
    and "extractAudio env plat v (request (CachedFetch v) w) = (Inr audioUri, w2)"
    and "plat \<noteq> web \<longrightarrow> getInfo env (calls w2) = Info True"
  shows "\<exists>rest. calls (snd (transcribeWithWhisper env plat v w)) =
           calls w2 @ (if plat = web then [] else [GetInfo audioUri]) @ TranscribePost v # rest"
proof -
  have g: "getWhisperFromCache env v w = (None, request (CachedFetch v) w)"
    using assms(1) getWhisperFromCache_world [of env v w]
    by (cases "getWhisperFromCache env v w") simp
  obtain r3 where u2: "calls (snd (uploadAudio env plat v audioUri w2)) = calls w2 @ TranscribePost v # r3"
    using uploadAudio_calls by blast
  obtain r4 where u3: "calls (snd (uploadAudio env plat v audioUri (request (GetInfo audioUri) w2)))
       = calls w2 @ GetInfo audioUri # TranscribePost v # r4"
    using uploadAudio_calls [of env plat v audioUri "request (GetInfo audioUri) w2"] by auto
  show ?thesis
    using g assms(2,3) u2 u3
    by (auto simp add: transcribeWithWhisper_def transcribeWithWhisper_try_def Let_def)
qed

lemma getTranscriptData_whisper_failed:
  assumes "sourceCache w v = Some whisper" and "transcribeWithWhisper env plat v w = (Inl e, w1)"
  shows "getTranscriptData env plat v w = fallbackChain env plat v w1"
  using assms by (simp add: getTranscriptData_def)

lemma fallbackChain_captions:
  assumes "fst (getYouTubeSubtitles env v True w) = Inr r" and "sentences r \<noteq> []"
  shows "fallbackChain env plat v w =
           (Inr r, (request (SubtitlesFetch v True) w)\<lparr>sourceCache := (sourceCache w)(v \<mapsto> youtube)\<rparr>)"
proof -
  have s: "success r"
    using assms(1)
    by (auto simp add: getYouTubeSubtitles_def Let_def
        split: subtitles_response.splits option.splits if_splits)
  have "getYouTubeSubtitles env v True w = (Inr r, request (SubtitlesFetch v True) w)"
    using assms(1) getYouTubeSubtitles_world [of env v True w]
    by (cases "getYouTubeSubtitles env v True w") simp
  then show ?thesis
    using s assms(2) by (simp add: fallbackChain_def)
qed

text \<open>
  C2, as amended. For a video whose preferred source is \<open>whisper\<close>: the first request
  is the cache probe; a reply that takes 5000 ms or more is a miss whatever it holds; a
  hit within the time is returned at once, with no further request; on a miss the next
  request is the audio extraction, the start of the full transcription, and when the
  extraction has given the audio (on a native platform, a file that exists) the upload to
  the transcription service follows; whenever \<open>transcribeWithWhisper\<close> succeeds its
  result is the result of the resolution and no captions request has been made; when it
  fails, the captions request comes next, after all the requests of the transcription, and
  captions with at least one sentence are then the result, recorded as \<open>youtube\<close>.
\<close>

theorem whisper_affinity_probe_then_transcribe:
  assumes "sourceCache w M = Some whisper"
  shows "(\<exists>rest. calls (snd (getTranscriptData env plat M w)) = calls w @ CachedFetch M # rest) \<and>
         (\<forall>t ok body. cached env (calls w) = CachedReply t ok body \<and> 5000 \<le> t \<longrightarrow>
            fst (getWhisperFromCache env M w) = None) \<and>
         (\<forall>t body. cached env (calls w) = CachedReply t True (Some body) \<and> t < 5000 \<longrightarrow>
            getTranscriptData env plat M w =
              (Inr (whisper_result body), request (CachedFetch M) w)) \<and>
         (fst (getWhisperFromCache env M w) = None \<longrightarrow>
            (\<exists>rest. calls (snd (getTranscriptData env plat M w)) =
               calls w @ CachedFetch M # AudioUrlFetch M # rest)) \<and>
         (\<forall>audioUri w2.
            fst (getWhisperFromCache env M w) = None \<and>
            extractAudio env plat M (request (CachedFetch M) w) = (Inr audioUri, w2) \<and>
            (plat \<noteq> web \<longrightarrow> getInfo env (calls w2) = Info True) \<longrightarrow>
            (\<exists>rest. calls (snd (getTranscriptData env plat M w)) =
               calls w2 @ (if plat = web then [] else [GetInfo audioUri]) @
                 TranscribePost M # rest)) \<and>
         (\<forall>r. fst (transcribeWithWhisper env plat M w) = Inr r \<longrightarrow>
            getTranscriptData env plat M w = transcribeWithWhisper env plat M w) \<and>
         (\<forall>r. fst (transcribeWithWhisper env plat M w) = Inr r \<longrightarrow>
            (\<exists>rest. calls (snd (getTranscriptData env plat M w)) = calls w @ rest \<and>
               (\<forall>u b. SubtitlesFetch u b \<notin> set rest))) \<and>
         (\<forall>e w1. transcribeWithWhisper env plat M w = (Inl e, w1) \<longrightarrow>
            (\<exists>rest. calls (snd (getTranscriptData env plat M w)) =
               calls w1 @ SubtitlesFetch M True # rest)) \<and>
         (\<forall>e w1 r. transcribeWithWhisper env plat M w = (Inl e, w1) \<and>
            fst (getYouTubeSubtitles env M True w1) = Inr r \<and> sentences r \<noteq> [] \<longrightarrow>
            getTranscriptData env plat M w =
              (Inr r, (request (SubtitlesFetch M True) w1)
                        \<lparr>sourceCache := (sourceCache w)(M \<mapsto> youtube)\<rparr>))"
proof (intro conjI allI impI)
  obtain r1 where "calls (snd (transcribeWithWhisper env plat M w)) = calls w @ CachedFetch M # r1"
    using transcribeWithWhisper_calls by blast
  moreover obtain r2 where "calls (snd (getTranscriptData env plat M w)) =
           calls (snd (transcribeWithWhisper env plat M w)) @ r2"
    using getTranscriptData_whisper_calls [OF assms] by blast
  ultimately show "\<exists>rest. calls (snd (getTranscriptData env plat M w)) = calls w @ CachedFetch M # rest"
    by simp
next
  fix t ok body
  assume "cached env (calls w) = CachedReply t ok body \<and> 5000 \<le> t"
  then show "fst (getWhisperFromCache env M w) = None"
    using getWhisperFromCache_timeout by blast
next
  fix t body
  assume h: "cached env (calls w) = CachedReply t True (Some body) \<and> t < 5000"
  then have tw: "transcribeWithWhisper env plat M w = (Inr (whisper_result body), request (CachedFetch M) w)"
    using transcribeWithWhisper_hit by blast
  then show "getTranscriptData env plat M w = (Inr (whisper_result body), request (CachedFetch M) w)"
    using getTranscriptData_whisper_ok [OF assms, of env plat "whisper_result body"] by simp
next
  assume "fst (getWhisperFromCache env M w) = None"
  then obtain r1 where "calls (snd (transcribeWithWhisper env plat M w)) =
      calls w @ CachedFetch M # AudioUrlFetch M # r1"
    using transcribeWithWhisper_miss by blast
  moreover obtain r2 where "calls (snd (getTranscriptData env plat M w)) =
           calls (snd (transcribeWithWhisper env plat M w)) @ r2"
    using getTranscriptData_whisper_calls [OF assms] by blast
  ultimately show "\<exists>rest. calls (snd (getTranscriptData env plat M w)) =
      calls w @ CachedFetch M # AudioUrlFetch M # rest"
    by simp
next
  fix audioUri w2
  assume h: "fst (getWhisperFromCache env M w) = None \<and>
            extractAudio env plat M (request (CachedFetch M) w) = (Inr audioUri, w2) \<and>
            (plat \<noteq> web \<longrightarrow> getInfo env (calls w2) = Info True)"
  then obtain r1 where "calls (snd (transcribeWithWhisper env plat M w)) =
      calls w2 @ (if plat = web then [] else [GetInfo audioUri]) @ TranscribePost M # r1"
    using transcribeWithWhisper_submits [of env M w plat audioUri w2] by blast
  moreover obtain r2 where "calls (snd (getTranscriptData env plat M w)) =
           calls (snd (transcribeWithWhisper env plat M w)) @ r2"
    using getTranscriptData_whisper_calls [OF assms] by blast
  ultimately show "\<exists>rest. calls (snd (getTranscriptData env plat M w)) =
      calls w2 @ (if plat = web then [] else [GetInfo audioUri]) @ TranscribePost M # rest"
    by simp
next
  fix r
  assume "fst (transcribeWithWhisper env plat M w) = Inr r"
  then show "getTranscriptData env plat M w = transcribeWithWhisper env plat M w"
    using getTranscriptData_whisper_ok [OF assms] by blast
next
  fix r
  assume "fst (transcribeWithWhisper env plat M w) = Inr r"
  then have "getTranscriptData env plat M w = transcribeWithWhisper env plat M w"
    using getTranscriptData_whisper_ok [OF assms] by blast
  then show "\<exists>rest. calls (snd (getTranscriptData env plat M w)) = calls w @ rest \<and>
      (\<forall>u b. SubtitlesFetch u b \<notin> set rest)"
    using transcribeWithWhisper_no_captions [of env plat M w] by simp
next
  fix e w1
  assume "transcribeWithWhisper env plat M w = (Inl e, w1)"
  then have "getTranscriptData env plat M w = fallbackChain env plat M w1"
    using getTranscriptData_whisper_failed [OF assms] by blast
  then show "\<exists>rest. calls (snd (getTranscriptData env plat M w)) =
      calls w1 @ SubtitlesFetch M True # rest"
    using fallbackChain_calls [of env plat M w1] by simp
next
  fix e w1 r
  assume h: "transcribeWithWhisper env plat M w = (Inl e, w1) \<and>
      fst (getYouTubeSubtitles env M True w1) = Inr r \<and> sentences r \<noteq> []"
  then have f: "getTranscriptData env plat M w = fallbackChain env plat M w1"
    using getTranscriptData_whisper_failed [OF assms] by blast
  have c: "sourceCache w1 = sourceCache w"
    using h transcribeWithWhisper_cache [of env plat M w] by simp
  show "getTranscriptData env plat M w =
      (Inr r, (request (SubtitlesFetch M True) w1)\<lparr>sourceCache := (sourceCache w)(M \<mapsto> youtube)\<rparr>)"
    using h fallbackChain_captions [of env M w1 r plat] by (simp add: f c)
qed

subsection \<open>Concrete runs\<close>

lemmas resolver_defs =
  getTranscriptData_def fallbackChain_def whisperFallback_def transcribeWithWhisper_def
  transcribeWithWhisper_try_def getWhisperFromCache_def extractAudio_def extractAudio_try_def
  uploadAudio_def getYouTubeSubtitles_def rethrow_def request_def or_default_def
  whisper_result_def audioFile_def Let_def

lemmas scenario_defs =
  offline_services_def no_captions_services_def captions_services_def cache_hit_services_def
  extraction_down_services_def fresh_world_def transcribed_world_def

text \<open>
  C7 on two runs. On iOS, with no captions and no cached transcription, the resolution
  of \<^verbatim>\<open>abc\<close> ends with the full transcription, the cache then holds \<open>whisper\<close> and
  the last request is the clean-up after the upload. With every service failing, the
  resolution throws and the cache is as before.
\<close>

theorem getTranscriptData_records_winning_source_witness:
  "source (projr (fst (getTranscriptData no_captions_services ios ''abc'' fresh_world))) = whisper \<and>
   sourceCache (snd (getTranscriptData no_captions_services ios ''abc'' fresh_world)) =
     [''abc'' \<mapsto> whisper] \<and>
   last (calls (snd (getTranscriptData no_captions_services ios ''abc'' fresh_world))) =
     DeleteFile ''audio_abc.m4a'' \<and>
   isl (fst (getTranscriptData offline_services web ''abc'' transcribed_world)) \<and>
   sourceCache (snd (getTranscriptData offline_services web ''abc'' transcribed_world)) =
     [''abc'' \<mapsto> whisper]"
  using getTranscriptData_records_winning_source
      [OF surjective_pairing, where env = no_captions_services and plat = ios
        and videoId = "''abc''" and w = fresh_world]
    getTranscriptData_records_winning_source
      [OF surjective_pairing, where env = offline_services and plat = web
        and videoId = "''abc''" and w = transcribed_world]
  by (simp add: resolver_defs scenario_defs)

text \<open>
  C5 on a run: captions resolve \<^verbatim>\<open>abc\<close>; the next resolution, even with every
  service failing, starts with the captions request.
\<close>

theorem caption_affinity_tries_captions_first_witness:
  "getTranscriptData captions_services web ''abc'' fresh_world =
     (Inr \<lparr>success = True, source = youtube, sentences = four_sentences,
           transcription = None, duration_total = None\<rparr>,
      \<lparr>sourceCache = [''abc'' \<mapsto> youtube], calls = [SubtitlesFetch ''abc'' True]\<rparr>) \<and>
   (\<exists>rest. calls (snd (getTranscriptData offline_services web ''abc''
        \<lparr>sourceCache = [''abc'' \<mapsto> youtube], calls = [SubtitlesFetch ''abc'' True]\<rparr>)) =
      [SubtitlesFetch ''abc'' True] @ SubtitlesFetch ''abc'' True # rest)"
proof -
  have run: "getTranscriptData captions_services web ''abc'' fresh_world =
     (Inr \<lparr>success = True, source = youtube, sentences = four_sentences,
           transcription = None, duration_total = None\<rparr>,
      \<lparr>sourceCache = [''abc'' \<mapsto> youtube], calls = [SubtitlesFetch ''abc'' True]\<rparr>)"
    by (simp add: resolver_defs scenario_defs four_sentences_def)
  from caption_affinity_tries_captions_first [OF run, of offline_services web] run
  show ?thesis by simp
qed

text \<open>
  C2, as stated, fails: for a video whose preferred source is \<open>whisper\<close>, with a cache
  miss and a working transcription service, the requests are the cache probe, the audio
  URL and the upload. The full transcription is done, and captions are never requested.
\<close>

theorem whisper_affinity_captions_before_transcription_counterexample:
  "sourceCache transcribed_world ''abc'' = Some whisper \<and>
   getTranscriptData no_captions_services web ''abc'' transcribed_world =
     (Inr \<lparr>success = True, source = whisper, sentences = four_sentences,
           transcription = None, duration_total = Some 9\<rparr>,
      \<lparr>sourceCache = [''abc'' \<mapsto> whisper],
       calls = [CachedFetch ''abc'', AudioUrlFetch ''abc'', TranscribePost ''abc'']\<rparr>)"
  by (simp add: resolver_defs scenario_defs)

text \<open>
  The amended C2 on runs: a cache hit after 80 ms is returned after the single cache
  request; a reply after 5000 ms is a miss, and the audio extraction follows; on iOS the
  download, the two file checks and the upload follow the extraction; with the
  extraction out of reach the transcription fails after two requests, the captions
  request comes third and its four sentences are the result.
\<close>

theorem whisper_affinity_probe_then_transcribe_witness:
  "sourceCache transcribed_world ''abc'' = Some whisper \<and>
   getTranscriptData cache_hit_services web ''abc'' transcribed_world =
     (Inr (whisper_result
        \<lparr>bSentences = Some four_sentences, bTranscription = None, bDuration = Some 9\<rparr>),
      request (CachedFetch ''abc'') transcribed_world) \<and>
   fst (getWhisperFromCache no_captions_services ''abc'' transcribed_world) = None \<and>
   (\<exists>rest. calls (snd (getTranscriptData no_captions_services web ''abc'' transcribed_world)) =
      calls transcribed_world @ CachedFetch ''abc'' # AudioUrlFetch ''abc'' # rest) \<and>
   (\<exists>rest. calls (snd (getTranscriptData no_captions_services ios ''abc'' transcribed_world)) =
      [CachedFetch ''abc'', AudioUrlFetch ''abc'', DownloadAudio ''abc'', GetInfo ''audio_abc.m4a'',
       GetInfo ''audio_abc.m4a'', TranscribePost ''abc''] @ rest) \<and>
   transcribeWithWhisper extraction_down_services web ''abc'' transcribed_world =
     (Inl (Error ''Whisper transcription failed: Failed to extract audio: Network request failed''),
      \<lparr>sourceCache = [''abc'' \<mapsto> whisper], calls = [CachedFetch ''abc'', AudioUrlFetch ''abc'']\<rparr>) \<and>
   getTranscriptData extraction_down_services web ''abc'' transcribed_world =
     (Inr \<lparr>success = True, source = youtube, sentences = four_sentences,
           transcription = None, duration_total = None\<rparr>,
      \<lparr>sourceCache = [''abc'' \<mapsto> youtube],
       calls = [CachedFetch ''abc'', AudioUrlFetch ''abc'', SubtitlesFetch ''abc'' True]\<rparr>)"
proof -
  have a: "sourceCache transcribed_world ''abc'' = Some whisper"
    by (simp add: transcribed_world_def)
  have hit: "cached cache_hit_services (calls transcribed_world) =
      CachedReply 80 True
        (Some \<lparr>bSentences = Some four_sentences, bTranscription = None, bDuration = Some 9\<rparr>)
      \<and> (80::nat) < 5000"
    by (simp add: scenario_defs)
  have late: "cached no_captions_services (calls transcribed_world) = CachedReply 5000 False None
      \<and> (5000::nat) \<le> 5000"
    by (simp add: scenario_defs)
  note h = whisper_affinity_probe_then_transcribe [OF a, of cache_hit_services web]
  note m = whisper_affinity_probe_then_transcribe [OF a, of no_captions_services web]
  note n = whisper_affinity_probe_then_transcribe [OF a, of no_captions_services ios]
  note d = whisper_affinity_probe_then_transcribe [OF a, of extraction_down_services web]
  from h hit have c2: "getTranscriptData cache_hit_services web ''abc'' transcribed_world =
     (Inr (whisper_result
        \<lparr>bSentences = Some four_sentences, bTranscription = None, bDuration = Some 9\<rparr>),
      request (CachedFetch ''abc'') transcribed_world)"
    by blast
  from m late have c3: "fst (getWhisperFromCache no_captions_services ''abc'' transcribed_world) = None"
    by blast
  from m c3 have c4: "\<exists>rest. calls (snd (getTranscriptData no_captions_services web ''abc'' transcribed_world)) =
      calls transcribed_world @ CachedFetch ''abc'' # AudioUrlFetch ''abc'' # rest"
    by blast
  have ex: "extractAudio no_captions_services ios ''abc'' (request (CachedFetch ''abc'') transcribed_world) =
      (Inr ''audio_abc.m4a'',
       \<lparr>sourceCache = [''abc'' \<mapsto> whisper],
        calls = [CachedFetch ''abc'', AudioUrlFetch ''abc'', DownloadAudio ''abc'',
                 GetInfo ''audio_abc.m4a'']\<rparr>)"
    "ios \<noteq> web \<longrightarrow> getInfo no_captions_services
        (calls \<lparr>sourceCache = [''abc'' \<mapsto> whisper],
        calls = [CachedFetch ''abc'', AudioUrlFetch ''abc'', DownloadAudio ''abc'',
                 GetInfo ''audio_abc.m4a'']\<rparr>) = Info True"
    by (simp_all add: resolver_defs scenario_defs)
  from n c3 ex have "\<exists>rest. calls (snd (getTranscriptData no_captions_services ios ''abc'' transcribed_world)) =
      calls \<lparr>sourceCache = [''abc'' \<mapsto> whisper],
        calls = [CachedFetch ''abc'', AudioUrlFetch ''abc'', DownloadAudio ''abc'',
                 GetInfo ''audio_abc.m4a'']\<rparr> @ (if ios = web then [] else [GetInfo ''audio_abc.m4a'']) @
                 TranscribePost ''abc'' # rest"
    by blast
  then have c5: "\<exists>rest. calls (snd (getTranscriptData no_captions_services ios ''abc'' transcribed_world)) =
      [CachedFetch ''abc'', AudioUrlFetch ''abc'', DownloadAudio ''abc'', GetInfo ''audio_abc.m4a'',
       GetInfo ''audio_abc.m4a'', TranscribePost ''abc''] @ rest"
    by simp
  have t: "transcribeWithWhisper extraction_down_services web ''abc'' transcribed_world =
     (Inl (Error ''Whisper transcription failed: Failed to extract audio: Network request failed''),
      \<lparr>sourceCache = [''abc'' \<mapsto> whisper], calls = [CachedFetch ''abc'', AudioUrlFetch ''abc'']\<rparr>)"
    by (simp add: resolver_defs scenario_defs)
  have y: "fst (getYouTubeSubtitles extraction_down_services ''abc'' True
      \<lparr>sourceCache = [''abc'' \<mapsto> whisper], calls = [CachedFetch ''abc'', AudioUrlFetch ''abc'']\<rparr>) =
      Inr \<lparr>success = True, source = youtube, sentences = four_sentences,
           transcription = None, duration_total = None\<rparr>"
    "sentences \<lparr>success = True, source = youtube, sentences = four_sentences,
           transcription = None, duration_total = None\<rparr> \<noteq> []"
    by (simp_all add: resolver_defs scenario_defs four_sentences_def)
  from d t y have "getTranscriptData extraction_down_services web ''abc'' transcribed_world =
     (Inr \<lparr>success = True, source = youtube, sentences = four_sentences,
           transcription = None, duration_total = None\<rparr>,
      (request (SubtitlesFetch ''abc'' True)
         \<lparr>sourceCache = [''abc'' \<mapsto> whisper], calls = [CachedFetch ''abc'', AudioUrlFetch ''abc'']\<rparr>)
        \<lparr>sourceCache := (sourceCache transcribed_world)(''abc'' \<mapsto> youtube)\<rparr>)"
    by blast
  then have c6: "getTranscriptData extraction_down_services web ''abc'' transcribed_world =
     (Inr \<lparr>success = True, source = youtube, sentences = four_sentences,
           transcription = None, duration_total = None\<rparr>,
      \<lparr>sourceCache = [''abc'' \<mapsto> youtube],
       calls = [CachedFetch ''abc'', AudioUrlFetch ''abc'', SubtitlesFetch ''abc'' True]\<rparr>)"
    by (simp add: request_def transcribed_world_def)
  from a c2 c3 c4 c5 t c6 show ?thesis by simp
qed

section \<open>The playback engine\<close>

subsection \<open>Fields the timer operations leave alone\<close>

lemma clearTimer_fields [simp]:
  "scriptSentences (clearTimer i st) = scriptSentences st"
  "currentSentenceIndex (clearTimer i st) = currentSentenceIndex st"
  "isPlaying (clearTimer i st) = isPlaying st"
  "isAutoPlay (clearTimer i st) = isAutoPlay st"
  "isAudioPlaying (clearTimer i st) = isAudioPlaying st"
  "playbackMode (clearTimer i st) = playbackMode st"
  "isTTSPlaying (clearTimer i st) = isTTSPlaying st"
  "isGlobalPlaying (clearTimer i st) = isGlobalPlaying st"
  "currentSentence (clearTimer i st) = currentSentence st"
  "sentenceTimerRef (clearTimer i st) = sentenceTimerRef st"
  "audioPlayerRef (clearTimer i st) = audioPlayerRef st"
  "audioRef (clearTimer i st) = audioRef st"
  "playerIsPlaying (clearTimer i st) = playerIsPlaying st"
  "sentenceEndTime (clearTimer i st) = sentenceEndTime st"
  "vadIntervalRef (clearTimer i st) = vadIntervalRef st"
  "endCheckInterval (clearTimer i st) = endCheckInterval st"
  "audioContextRef (clearTimer i st) = audioContextRef st"
  "analyserRef (clearTimer i st) = analyserRef st"
  "onSilenceDetectedRef (clearTimer i st) = onSilenceDetectedRef st"
  "nextId (clearTimer i st) = nextId st"
  "commands (clearTimer i st) = commands st"
  "ttsCommands (clearTimer i st) = ttsCommands st"
  "invoked (clearTimer i st) = invoked st"
  by (simp_all add: clearTimer_def)

lemma clearIfSet_fields [simp]:
  "scriptSentences (clearIfSet r st) = scriptSentences st"
  "currentSentenceIndex (clearIfSet r st) = currentSentenceIndex st"
  "isPlaying (clearIfSet r st) = isPlaying st"
  "isAutoPlay (clearIfSet r st) = isAutoPlay st"
  "isAudioPlaying (clearIfSet r st) = isAudioPlaying st"
  "playbackMode (clearIfSet r st) = playbackMode st"
  "isTTSPlaying (clearIfSet r st) = isTTSPlaying st"
  "isGlobalPlaying (clearIfSet r st) = isGlobalPlaying st"
  "currentSentence (clearIfSet r st) = currentSentence st"
  "sentenceTimerRef (clearIfSet r st) = sentenceTimerRef st"
  "audioPlayerRef (clearIfSet r st) = audioPlayerRef st"
  "audioRef (clearIfSet r st) = audioRef st"
  "playerIsPlaying (clearIfSet r st) = playerIsPlaying st"
  "sentenceEndTime (clearIfSet r st) = sentenceEndTime st"
  "vadIntervalRef (clearIfSet r st) = vadIntervalRef st"
  "endCheckInterval (clearIfSet r st) = endCheckInterval st"
  "audioContextRef (clearIfSet r st) = audioContextRef st"
  "analyserRef (clearIfSet r st) = analyserRef st"
  "onSilenceDetectedRef (clearIfSet r st) = onSilenceDetectedRef st"
  "nextId (clearIfSet r st) = nextId st"
  "commands (clearIfSet r st) = commands st"
  "ttsCommands (clearIfSet r st) = ttsCommands st"
  "invoked (clearIfSet r st) = invoked st"
  by (simp_all add: clearIfSet_def split: option.split)

lemma setTimer_fields [simp]:
  "scriptSentences (setTimer ms t st) = scriptSentences st"
  "currentSentenceIndex (setTimer ms t st) = currentSentenceIndex st"
  "isPlaying (setTimer ms t st) = isPlaying st"
  "isAutoPlay (setTimer ms t st) = isAutoPlay st"
  "isAudioPlaying (setTimer ms t st) = isAudioPlaying st"
  "playbackMode (setTimer ms t st) = playbackMode st"
  "isTTSPlaying (setTimer ms t st) = isTTSPlaying st"
  "isGlobalPlaying (setTimer ms t st) = isGlobalPlaying st"
  "currentSentence (setTimer ms t st) = currentSentence st"
  "sentenceTimerRef (setTimer ms t st) = sentenceTimerRef st"
  "audioPlayerRef (setTimer ms t st) = audioPlayerRef st"
  "audioRef (setTimer ms t st) = audioRef st"
  "playerIsPlaying (setTimer ms t st) = playerIsPlaying st"
  "sentenceEndTime (setTimer ms t st) = sentenceEndTime st"
  "vadIntervalRef (setTimer ms t st) = vadIntervalRef st"
  "endCheckInterval (setTimer ms t st) = endCheckInterval st"
  "audioContextRef (setTimer ms t st) = audioContextRef st"
  "analyserRef (setTimer ms t st) = analyserRef st"
  "onSilenceDetectedRef (setTimer ms t st) = onSilenceDetectedRef st"
  "commands (setTimer ms t st) = commands st"
  "ttsCommands (setTimer ms t st) = ttsCommands st"
  "invoked (setTimer ms t st) = invoked st"
  by (simp_all add: setTimer_def)

lemma setTask_fields [simp]:
  "scriptSentences (setTask i t st) = scriptSentences st"
  "currentSentenceIndex (setTask i t st) = currentSentenceIndex st"
  "isPlaying (setTask i t st) = isPlaying st"
  "isAutoPlay (setTask i t st) = isAutoPlay st"
  "isAudioPlaying (setTask i t st) = isAudioPlaying st"
  "playbackMode (setTask i t st) = playbackMode st"
  "isTTSPlaying (setTask i t st) = isTTSPlaying st"
  "isGlobalPlaying (setTask i t st) = isGlobalPlaying st"
  "currentSentence (setTask i t st) = currentSentence st"
  "sentenceTimerRef (setTask i t st) = sentenceTimerRef st"
  "audioPlayerRef (setTask i t st) = audioPlayerRef st"
  "audioRef (setTask i t st) = audioRef st"
  "playerIsPlaying (setTask i t st) = playerIsPlaying st"
  "sentenceEndTime (setTask i t st) = sentenceEndTime st"
  "vadIntervalRef (setTask i t st) = vadIntervalRef st"
  "endCheckInterval (setTask i t st) = endCheckInterval st"
  "audioContextRef (setTask i t st) = audioContextRef st"
  "analyserRef (setTask i t st) = analyserRef st"
  "onSilenceDetectedRef (setTask i t st) = onSilenceDetectedRef st"
  "nextId (setTask i t st) = nextId st"
  "commands (setTask i t st) = commands st"
  "ttsCommands (setTask i t st) = ttsCommands st"
  "invoked (setTask i t st) = invoked st"
  by (simp_all add: setTask_def)

lemma stopVoiceActivityDetection_fields [simp]:
  "scriptSentences (stopVoiceActivityDetection st) = scriptSentences st"
  "currentSentenceIndex (stopVoiceActivityDetection st) = currentSentenceIndex st"
  "isPlaying (stopVoiceActivityDetection st) = isPlaying st"
  "isAutoPlay (stopVoiceActivityDetection st) = isAutoPlay st"
  "isAudioPlaying (stopVoiceActivityDetection st) = isAudioPlaying st"
  "playbackMode (stopVoiceActivityDetection st) = playbackMode st"
  "isTTSPlaying (stopVoiceActivityDetection st) = isTTSPlaying st"
  "isGlobalPlaying (stopVoiceActivityDetection st) = isGlobalPlaying st"
  "currentSentence (stopVoiceActivityDetection st) = currentSentence st"
  "sentenceTimerRef (stopVoiceActivityDetection st) = sentenceTimerRef st"
  "audioPlayerRef (stopVoiceActivityDetection st) = audioPlayerRef st"
  "audioRef (stopVoiceActivityDetection st) = audioRef st"
  "playerIsPlaying (stopVoiceActivityDetection st) = playerIsPlaying st"
  "sentenceEndTime (stopVoiceActivityDetection st) = sentenceEndTime st"
  "endCheckInterval (stopVoiceActivityDetection st) = endCheckInterval st"
  "nextId (stopVoiceActivityDetection st) = nextId st"
  "commands (stopVoiceActivityDetection st) = commands st"
  "ttsCommands (stopVoiceActivityDetection st) = ttsCommands st"
  "invoked (stopVoiceActivityDetection st) = invoked st"
  by (simp_all add: stopVoiceActivityDetection_def)

subsection \<open>Ticks of the boundary detector\<close>

lemma pendingJob_setTask:
  "pendingJob i (setTask i t st) = map_option (\<lambda>j. j\<lparr>task := t\<rparr>) (pendingJob i st)"
proof -
  have "find (\<lambda>j. jobId j = i) (map (\<lambda>j. if jobId j = i then j\<lparr>task := t\<rparr> else j) js)
        = map_option (\<lambda>j. j\<lparr>task := t\<rparr>) (find (\<lambda>j. jobId j = i) js)" for js
    by (induction js) auto
  then show ?thesis by (simp add: pendingJob_def setTask_def)
qed

lemma speech_tick:
  assumes "pendingJob i st = Some j" and "task j = VadInterval cap sil sp" and "isSpeech fr"
  shows "fire plat (Sampled fr) i st =
     (if analyserRef st \<and> cap
      then setTask i (VadInterval cap (if speechThreshold \<le> sp + 1 then 0 else sil) (sp + 1)) st
      else st)"
  using assms by (simp add: fire_def vadTick_def Let_def)

lemma speech_tick_counts:
  assumes "vadCounts i st = Some (sil, sp)" and "isSpeech fr"
  shows "vadCounts i (fire plat (Sampled fr) i st) =
           Some (if sampling i st \<and> speechThreshold \<le> sp + 1 then 0 else sil,
                 if sampling i st then sp + 1 else sp)
         \<and> sampling i (fire plat (Sampled fr) i st) = sampling i st"
proof -
  from assms(1) obtain j cap where j: "pendingJob i st = Some j" "task j = VadInterval cap sil sp"
    by (auto simp add: vadCounts_def split: option.splits task.splits)
  show ?thesis
    using j assms(1) speech_tick [OF j assms(2), of plat]
    by (auto simp add: vadCounts_def sampling_def pendingJob_setTask)
qed

lemma speech_run_counts:
  assumes "vadCounts i st = Some (sil, sp)" and "list_all isSpeech frs"
  shows "vadCounts i (ticks plat frs i st) =
           Some (if sampling i st \<and> frs \<noteq> [] \<and> speechThreshold \<le> sp + length frs then 0 else sil,
                 if sampling i st then sp + length frs else sp)"
  using assms
proof (induction frs arbitrary: st sil sp)
  case Nil
  then show ?case by simp
next
  case (Cons fr frs)
  from Cons.prems have fr: "isSpeech fr" and frs: "list_all isSpeech frs" by simp_all
  note step = speech_tick_counts [OF Cons.prems(1) fr, of plat]
  from step have c: "vadCounts i (fire plat (Sampled fr) i st) =
           Some (if sampling i st \<and> speechThreshold \<le> sp + 1 then 0 else sil,
                 if sampling i st then sp + 1 else sp)"
    and s: "sampling i (fire plat (Sampled fr) i st) = sampling i st" by simp_all
  show ?case
    using Cons.IH [OF c frs] s by (auto simp add: speechThreshold_def)
qed


lemma bins: "speechStartBin = 13" "speechEndBin = 158"
  by (simp_all add: speechStartBin_def speechEndBin_def)

lemma map_nth_replicate:
  "hi \<le> n \<Longrightarrow> map (\<lambda>i. g (replicate n v ! i)) [lo..<hi] = map (\<lambda>i. g v) [lo..<hi]"
  by (rule map_cong) auto

lemma quiet_is_silence: "\<not> isSpeech quiet"
  by (simp add: isSpeech_def quiet_def rms_of_def volumeThreshold_def)

lemma loud_is_speech: "isSpeech loud"
proof -
  have "sqrt (16129 / 16384) = 127 / 128"
    by (rule real_sqrt_unique) (simp_all add: power2_eq_square)
  then have r: "rms_of [255] = 12700 / 128"
    by (simp add: rms_of_def)
  have e: "speechEnergy_of (replicate 158 255) = 255"
    by (simp add: speechEnergy_of_def bins map_nth_replicate sum_list_triv)
  show ?thesis
    by (simp add: isSpeech_def loud_def r e volumeThreshold_def speechFrequencyThreshold_def)
qed

lemma stopVoiceActivityDetection_forgets_callback:
  "onSilenceDetectedRef (stopVoiceActivityDetection st) = None"
  by (simp add: stopVoiceActivityDetection_def)

lemma vadTick_never_invokes:
  "invoked (vadTick fr i cap sil sp st) = invoked st"
  by (simp add: vadTick_def Let_def stopVoiceActivityDetection_forgets_callback)

lemma silence_tick:
  assumes "pendingJob i st = Some j" and "task j = VadInterval cap sil sp" and "\<not> isSpeech fr"
    and "analyserRef st" and "cap"
  shows "fire plat (Sampled fr) i st =
     (if silenceThreshold \<le> sil + 1
      then stopVoiceActivityDetection (setTask i (VadInterval cap (sil + 1) 0) st)
      else setTask i (VadInterval cap (sil + 1) 0) st)"
  using assms
  by (simp add: fire_def vadTick_def Let_def stopVoiceActivityDetection_forgets_callback)

lemma tick_counts:
  assumes "vadCounts i st = Some (sil, sp)" and "sampling i st"
  shows "isSpeech fr \<Longrightarrow> vadCounts i (fire plat (Sampled fr) i st) =
           Some (if speechThreshold \<le> sp + 1 then 0 else sil, sp + 1)"
    and "\<not> isSpeech fr \<Longrightarrow> sil + 1 < silenceThreshold \<Longrightarrow>
           vadCounts i (fire plat (Sampled fr) i st) = Some (sil + 1, 0)"
proof -
  from assms obtain j cap where j: "pendingJob i st = Some j" "task j = VadInterval cap sil sp"
    and s: "analyserRef st" "cap"
    by (auto simp add: vadCounts_def sampling_def split: option.splits task.splits)
  show "isSpeech fr \<Longrightarrow> vadCounts i (fire plat (Sampled fr) i st) =
           Some (if speechThreshold \<le> sp + 1 then 0 else sil, sp + 1)"
    using speech_tick_counts [OF assms(1), of fr plat] assms(2) by simp
  show "\<not> isSpeech fr \<Longrightarrow> sil + 1 < silenceThreshold \<Longrightarrow>
           vadCounts i (fire plat (Sampled fr) i st) = Some (sil + 1, 0)"
    using silence_tick [OF j _ s, of fr plat] j
    by (simp add: vadCounts_def pendingJob_setTask)
qed

text \<open>
  C9. Take a sampling interval with counters \<open>(sil, sp)\<close>, so that \<open>sp\<close> Speech ticks
  of the current run have been seen, and let the run go on with the Speech frames
  \<open>frs\<close>. While the run is shorter than the stability threshold (3 ticks) the silence
  counter is still \<open>sil\<close>; when the ticks sample and the run reaches the threshold it
  is 0; it differs from \<open>sil\<close> only if the run has reached the threshold. A frame is
  Speech iff its RMS exceeds 15 and its speech-band energy exceeds 25, and a sampling
  tick takes the Speech branch (counting the run, resetting at the threshold) exactly on
  such a frame, the Silence branch (run length 0, silence counter plus one) otherwise.
\<close>

theorem speech_run_below_stability_keeps_silence_count:
  assumes "vadCounts i st = Some (sil, sp)" and "list_all isSpeech frs"
  shows "(sp + length frs < speechThreshold \<longrightarrow>
            map_option fst (vadCounts i (ticks plat frs i st)) = Some sil) \<and>
         (sampling i st \<and> frs \<noteq> [] \<and> speechThreshold \<le> sp + length frs \<longrightarrow>
            map_option fst (vadCounts i (ticks plat frs i st)) = Some 0) \<and>
         (map_option fst (vadCounts i (ticks plat frs i st)) \<noteq> Some sil \<longrightarrow>
            speechThreshold \<le> sp + length frs) \<and>
         speechThreshold = 3 \<and>
         (\<forall>fr. isSpeech fr =
            (15 < rms_of (timeDomain fr) \<and> 25 < speechEnergy_of (frequencyData fr))) \<and>
         (\<forall>fr. sampling i st \<and> sil + 1 < silenceThreshold \<longrightarrow>
            vadCounts i (fire plat (Sampled fr) i st) =
              (if 15 < rms_of (timeDomain fr) \<and> 25 < speechEnergy_of (frequencyData fr)
               then Some (if 3 \<le> sp + 1 then 0 else sil, sp + 1)
               else Some (sil + 1, 0)))"
proof -
  note run = speech_run_counts [OF assms, of plat]
  have cls: "isSpeech fr =
      (15 < rms_of (timeDomain fr) \<and> 25 < speechEnergy_of (frequencyData fr))" for fr
    by (simp add: isSpeech_def volumeThreshold_def speechFrequencyThreshold_def)
  have one: "vadCounts i (fire plat (Sampled fr) i st) =
              (if 15 < rms_of (timeDomain fr) \<and> 25 < speechEnergy_of (frequencyData fr)
               then Some (if 3 \<le> sp + 1 then 0 else sil, sp + 1)
               else Some (sil + 1, 0))"
    if "sampling i st \<and> sil + 1 < silenceThreshold" for fr
    using that assms(1) tick_counts [of i st sil sp fr plat] cls [of fr]
    by (auto simp add: speechThreshold_def)
  show ?thesis
    using run cls one by (auto simp add: speechThreshold_def)
qed

lemmas timer_defs = setTimer_def clearTimer_def pendingJob_def setTask_def clearIfSet_def

lemmas player_defs =
  stopVoiceActivityDetection_def startVoiceActivityDetection_def vadTick_def
  checkAndStopAtSentenceEnd_def stopCurrent_def seekTo_def play_def pause_def playWithVAD_def
  findIndex_def autoAdvance_def silenceThreshold_def speechThreshold_def

lemmas screen_defs =
  playSentenceOnly_def render_def speakSentence_def toggleGlobalPlayback_def fire_def

subsection \<open>The detector's callback and its degraded mode\<close>

text \<open>
  No tick of the sampling interval calls \<^verbatim>\<open>onSilenceDetected\<close>: when the silence
  threshold is reached, \<^verbatim>\<open>stopVoiceActivityDetection\<close> has set the ref to \<^verbatim>\<open>null\<close>
  before it is read.
\<close>

lemma fire_sampled_never_invokes:
  "invoked (fire plat (Sampled fr) i st) = invoked st"
  by (simp add: fire_def vadTick_never_invokes split: option.split task.split)

lemma find_fresh:
  "list_all (\<lambda>j. jobId j < n) js \<Longrightarrow>
     find (\<lambda>j. jobId j = n) (js @ [\<lparr>jobId = n, delay = d, task = t\<rparr>]) =
       Some \<lparr>jobId = n, delay = d, task = t\<rparr>"
  by (induction js) auto

lemma list_all_filter: "list_all P xs \<Longrightarrow> list_all P (filter Q xs)"
  by (induction xs) auto

lemma stop_pending:
  "pending (stopVoiceActivityDetection st) =
     (case vadIntervalRef st of None \<Rightarrow> pending st
      | Some i \<Rightarrow> filter (\<lambda>j. jobId j \<noteq> i) (pending st))"
  by (simp add: stopVoiceActivityDetection_def clearIfSet_def clearTimer_def split: option.split)

lemma stop_fresh:
  "fresh_ids st \<Longrightarrow> list_all (\<lambda>j. jobId j < nextId st) (pending (stopVoiceActivityDetection st))"
  by (simp add: stop_pending fresh_ids_def list_all_filter split: option.split)

lemma find_older:
  "list_all (\<lambda>j. jobId j < n) js \<Longrightarrow> find (\<lambda>j. jobId j = n) js = None"
  by (induction js) auto

lemma find_filter_same: "find (\<lambda>j. jobId j = i) (filter (\<lambda>j. jobId j \<noteq> i) js) = None"
  by (induction js) auto

lemma find_filter_other:
  "i \<noteq> k \<Longrightarrow> find (\<lambda>j. jobId j = i) (filter (\<lambda>j. jobId j \<noteq> k) js) = find (\<lambda>j. jobId j = i) js"
  by (induction js) auto

lemma pendingJob_clearTimer_same [simp]: "pendingJob i (clearTimer i st) = None"
  by (simp add: pendingJob_def clearTimer_def find_filter_same)

lemma pendingJob_clearTimer_other:
  "i \<noteq> k \<Longrightarrow> pendingJob i (clearTimer k st) = pendingJob i st"
  by (simp add: pendingJob_def clearTimer_def find_filter_other)

lemma pendingJob_clearIfSet_older:
  "older r i \<Longrightarrow> pendingJob i (clearIfSet r st) = pendingJob i st"
  by (auto simp add: clearIfSet_def older_def pendingJob_clearTimer_other split: option.splits)

lemma pendingJob_clearIfSet_same [simp]:
  "pendingJob i (clearIfSet (Some i) st) = None"
  by (simp add: clearIfSet_def)

lemma pendingJob_setTimer_new:
  "list_all (\<lambda>j. jobId j < nextId st) (pending st) \<Longrightarrow>
     pendingJob (nextId st) (setTimer ms t st) = Some \<lparr>jobId = nextId st, delay = ms, task = t\<rparr>"
  by (simp add: pendingJob_def setTimer_def find_fresh)

lemma find_append_other:
  "\<not> P x \<Longrightarrow> find P (xs @ [x]) = find P xs"
  by (induction xs) auto

lemma pendingJob_setTimer_old:
  "i \<noteq> nextId st \<Longrightarrow> pendingJob i (setTimer ms t st) = pendingJob i st"
  by (simp add: pendingJob_def setTimer_def find_append_other)

lemma pending_clearTimer [simp]:
  "pending (clearTimer i st) = filter (\<lambda>j. jobId j \<noteq> i) (pending st)"
  by (simp add: clearTimer_def)

lemma pendingJob_congr:
  "pending st' = pending st \<Longrightarrow> pendingJob i st' = pendingJob i st"
  by (simp add: pendingJob_def)

lemma fire_fallback:
  assumes "pendingJob i st = Some j" and "task j = VadFallback"
  shows "fire plat Elapsed i st =
     (case onSilenceDetectedRef st of
        None \<Rightarrow> clearTimer i st
      | Some cb \<Rightarrow> invoke cb (clearTimer i st))"
  using assms by (simp add: fire_def clearTimer_def split: option.split)

lemma invoked_invoke: "invoked (invoke cb st) = invoked st @ [cb]"
  by (cases cb) (simp add: autoAdvance_def setTimer_def Let_def)

text \<open>
  C6, as amended. Arming on the web when a step of the graph construction other than
  attaching the source throws: the only job added is a timeout of 5000 ms, and when it
  elapses (the detector not stopped or armed again in between) the callback registered
  by this arming is called. When attaching the source fails because the audio element is
  already connected, the detector is left stopped and no job is added; off the web the
  call does nothing. No arming calls the callback itself, and the function returns a
  state in every case: no error reaches the caller.
\<close>

theorem detector_setup_failure_fallback:
  assumes "fresh_ids st"
  shows "pending (startVoiceActivityDetection web cap SetupThrows cb st) =
           pending (stopVoiceActivityDetection st) @
             [\<lparr>jobId = nextId st, delay = 5000, task = VadFallback\<rparr>] \<and>
         invoked (fire web Elapsed (nextId st)
                    (startVoiceActivityDetection web cap SetupThrows cb st)) = invoked st @ [cb] \<and>
         pending (startVoiceActivityDetection web cap SourceAlreadyConnected cb st) =
           pending (stopVoiceActivityDetection st) \<and>
         vadIntervalRef (startVoiceActivityDetection web cap SourceAlreadyConnected cb st) = None \<and>
         invoked (startVoiceActivityDetection web cap setup cb st) = invoked st \<and>
         (plat \<noteq> web \<longrightarrow> startVoiceActivityDetection plat cap setup cb st = st)"
proof -
  let ?st1 = "(stopVoiceActivityDetection st)\<lparr>onSilenceDetectedRef := Some cb\<rparr>"
  have thr: "startVoiceActivityDetection web cap SetupThrows cb st = setTimer 5000 VadFallback ?st1"
    by (simp add: startVoiceActivityDetection_def)
  have p: "pending (setTimer 5000 VadFallback ?st1) =
      pending (stopVoiceActivityDetection st) @ [\<lparr>jobId = nextId st, delay = 5000, task = VadFallback\<rparr>]"
    by (simp add: setTimer_def)
  have f: "pendingJob (nextId st) (setTimer 5000 VadFallback ?st1) =
      Some \<lparr>jobId = nextId st, delay = 5000, task = VadFallback\<rparr>"
    using find_fresh [OF stop_fresh [OF assms]] by (simp add: pendingJob_def p)
  have r: "onSilenceDetectedRef (setTimer 5000 VadFallback ?st1) = Some cb"
    by (simp add: setTimer_def)
  have v: "invoked (clearTimer (nextId st) (setTimer 5000 VadFallback ?st1)) = invoked st"
    by (simp add: setTimer_def clearTimer_def)
  have i: "invoked (fire web Elapsed (nextId st) (setTimer 5000 VadFallback ?st1)) = invoked st @ [cb]"
  proof -
    have "task \<lparr>jobId = nextId st, delay = 5000, task = VadFallback\<rparr> = VadFallback" by simp
    from fire_fallback [OF f this, of web]
    have "fire web Elapsed (nextId st) (setTimer 5000 VadFallback ?st1) =
        invoke cb (clearTimer (nextId st) (setTimer 5000 VadFallback ?st1))"
      by (simp only: r option.case)
    then show ?thesis by (simp only: invoked_invoke v)
  qed
  have n: "invoked (startVoiceActivityDetection web cap setup cb st) = invoked st"
    by (simp add: startVoiceActivityDetection_def Let_def split: graph_setup.split)
  have c: "startVoiceActivityDetection web cap SourceAlreadyConnected cb st = ?st1"
    by (simp add: startVoiceActivityDetection_def)
  have o: "plat \<noteq> web \<longrightarrow> startVoiceActivityDetection plat cap setup cb st = st"
    by (simp add: startVoiceActivityDetection_def)
  show ?thesis
    using p i n o by (simp add: thr c) (simp add: stopVoiceActivityDetection_def)
qed

subsection \<open>Timer mode\<close>

lemma native_play_then_timer:
  assumes "plat \<noteq> web" and "audioPlayerRef st"
  shows "playSentenceOnly plat c s st =
     (clearIfSet (sentenceTimerRef st)
        (setTimer (duration s * 1000 + 200) (StopTimer s c)
           (play plat (seekTo (start s) (st\<lparr>currentSentence := Some s, isPlaying := True\<rparr>)))))
       \<lparr>sentenceTimerRef := Some (nextId st)\<rparr>"
  using assms by (simp add: playSentenceOnly_def Let_def play_def seekTo_def)

lemma fire_stop_timer:
  assumes "pendingJob i st = Some j" and "task j = StopTimer s c"
  shows "fire plat Elapsed i st =
     (if audioPlayerRef st
      then autoAdvance s c ((pause plat (clearTimer i st))\<lparr>isPlaying := False, currentSentence := None\<rparr>)
      else clearTimer i st)"
  using assms by (simp add: fire_def Let_def)

text \<open>
  C8. Off the web, with the player mounted and the audio loaded, \<^verbatim>\<open>playSentenceOnly\<close>
  seeks to the start of the sentence, plays, and arms a timeout of the duration in
  milliseconds plus the padding of 200 ms, kept in \<^verbatim>\<open>sentenceTimerRef\<close>. When that timeout
  elapses and auto play was off, the backend is paused, \<^verbatim>\<open>isPlaying\<close> is false, the job is
  gone and nothing is added, and the current sentence index is what it was. For the
  sentence from 10 to 13 the timeout is 3200 ms and the seek goes to 10 (see the run
  below).
\<close>

theorem timer_mode_plays_then_stops_after_duration:
  assumes "plat \<noteq> web" and "audioPlayerRef st" and "audioRef st" and "fresh_ids st"
  shows "commands (playSentenceOnly plat c s st) = commands st @ [Seek (start s), Play] \<and>
         pendingJob (nextId st) (playSentenceOnly plat c s st) =
           Some \<lparr>jobId = nextId st, delay = duration s * 1000 + 200, task = StopTimer s c\<rparr> \<and>
         sentenceTimerRef (playSentenceOnly plat c s st) = Some (nextId st) \<and>
         isPlaying (playSentenceOnly plat c s st) \<and>
         (\<not> cIsAutoPlay c \<longrightarrow>
            \<not> isPlaying (fire plat Elapsed (nextId st) (playSentenceOnly plat c s st)) \<and>
            currentSentenceIndex (fire plat Elapsed (nextId st) (playSentenceOnly plat c s st)) =
              currentSentenceIndex st \<and>
            commands (fire plat Elapsed (nextId st) (playSentenceOnly plat c s st)) =
              commands st @ [Seek (start s), Play, Pause] \<and>
            pending (fire plat Elapsed (nextId st) (playSentenceOnly plat c s st)) =
              filter (\<lambda>j. jobId j \<noteq> nextId st) (pending (playSentenceOnly plat c s st)) \<and>
            isGlobalPlaying (fire plat Elapsed (nextId st) (playSentenceOnly plat c s st)) =
              isGlobalPlaying st)"
proof -
  let ?p = "playSentenceOnly plat c s st"
  let ?st2 = "play plat (seekTo (start s) (st\<lparr>currentSentence := Some s, isPlaying := True\<rparr>))"
  note eq = native_play_then_timer [OF assms(1,2), of c s]
  have st2: "pending ?st2 = pending st" "nextId ?st2 = nextId st" "audioPlayerRef ?st2"
    "commands ?st2 = commands st @ [Seek (start s), Play]" "isPlaying ?st2" "audioRef ?st2"
    "currentSentenceIndex ?st2 = currentSentenceIndex st" "isGlobalPlaying ?st2 = isGlobalPlaying st"
    using assms by (simp_all add: play_def seekTo_def)
  have old: "older (sentenceTimerRef st) (nextId st)"
    and fr: "list_all (\<lambda>j. jobId j < nextId ?st2) (pending ?st2)"
    using assms(4) st2 by (simp_all add: fresh_ids_def)
  have c: "commands ?p = commands st @ [Seek (start s), Play]"
    by (simp add: eq st2)
  have j: "pendingJob (nextId st) ?p =
      Some \<lparr>jobId = nextId st, delay = duration s * 1000 + 200, task = StopTimer s c\<rparr>"
    using pendingJob_setTimer_new [OF fr, of "duration s * 1000 + 200" "StopTimer s c"]
    by (simp add: eq st2 pendingJob_def pendingJob_clearIfSet_older [OF old, unfolded pendingJob_def])
  have r: "sentenceTimerRef ?p = Some (nextId st)" "isPlaying ?p" "audioPlayerRef ?p" "audioRef ?p"
    "currentSentenceIndex ?p = currentSentenceIndex st" "isGlobalPlaying ?p = isGlobalPlaying st"
    by (simp_all add: eq st2)
  have f: "fire plat Elapsed (nextId st) ?p =
      autoAdvance s c ((pause plat (clearTimer (nextId st) ?p))\<lparr>isPlaying := False, currentSentence := None\<rparr>)"
    using fire_stop_timer [OF j, of s c plat] r by simp
  have a: "\<not> cIsAutoPlay c \<Longrightarrow> fire plat Elapsed (nextId st) ?p =
      (pause plat (clearTimer (nextId st) ?p))\<lparr>isPlaying := False, currentSentence := None\<rparr>"
    by (simp add: f autoAdvance_def)
  have pz: "pause plat (clearTimer (nextId st) ?p) =
      (clearTimer (nextId st) ?p)\<lparr>commands := commands ?p @ [Pause], playerIsPlaying := False\<rparr>"
    using assms(1) r by (simp add: pause_def)
  show ?thesis
    using c j r by (auto simp add: a pz)
qed

subsection \<open>The global play/pause button\<close>

lemma toggle_pause_branch:
  assumes "isGlobalPlaying st"
  shows "toggleGlobalPlayback plat st =
     (let st1 = (if isTTSPlaying st
                 then st\<lparr>ttsCommands := ttsCommands st @ [StopTTS], isTTSPlaying := False\<rparr>
                 else st);
          st2 = (if isAudioPlaying st \<and> audioPlayerRef st
                 then (pause plat st1)\<lparr>isAudioPlaying := False\<rparr>
                 else st1);
          st3 = (if isAutoPlay st then st2\<lparr>isAutoPlay := False\<rparr> else st2);
          st4 = (clearIfSet (sentenceTimerRef st3) st3)\<lparr>sentenceTimerRef := None\<rparr>
      in st4\<lparr>isGlobalPlaying := False\<rparr>)"
  using assms by (simp add: toggleGlobalPlayback_def)

lemma pause_fields [simp]:
  "sentenceTimerRef (pause plat st) = sentenceTimerRef st"
  "isAutoPlay (pause plat st) = isAutoPlay st"
  "isTTSPlaying (pause plat st) = isTTSPlaying st"
  "ttsCommands (pause plat st) = ttsCommands st"
  "currentSentenceIndex (pause plat st) = currentSentenceIndex st"
  "isGlobalPlaying (pause plat st) = isGlobalPlaying st"
  by (simp_all add: pause_def Let_def)

lemma playSentenceOnly_fields [simp]:
  "isGlobalPlaying (playSentenceOnly plat c s st) = isGlobalPlaying st"
  by (simp add: playSentenceOnly_def playWithVAD_def play_def seekTo_def stopCurrent_def Let_def)

text \<open>
  What the button does do. In a state where \<^verbatim>\<open>isGlobalPlaying\<close> is set, it clears
  \<^verbatim>\<open>isGlobalPlaying\<close> and \<^verbatim>\<open>isAutoPlay\<close>, clears the timer held in \<^verbatim>\<open>sentenceTimerRef\<close>
  and forgets it, so that no event of that timer changes the state afterwards, stops the
  speech service when \<^verbatim>\<open>isTTSPlaying\<close> is set, and keeps the current sentence index.
  In a state where \<^verbatim>\<open>isGlobalPlaying\<close> is not set and there is a current sentence, the
  same button starts playback: \<^verbatim>\<open>isGlobalPlaying\<close> is set.
\<close>

lemma global_pause_when_playing:
  "(isGlobalPlaying st \<longrightarrow>
      \<not> isGlobalPlaying (toggleGlobalPlayback plat st) \<and>
      \<not> isAutoPlay (toggleGlobalPlayback plat st) \<and>
      sentenceTimerRef (toggleGlobalPlayback plat st) = None \<and>
      currentSentenceIndex (toggleGlobalPlayback plat st) = currentSentenceIndex st \<and>
      (\<forall>i occ. sentenceTimerRef st = Some i \<longrightarrow>
         pendingJob i (toggleGlobalPlayback plat st) = None \<and>
         fire plat occ i (toggleGlobalPlayback plat st) = toggleGlobalPlayback plat st) \<and>
      (isTTSPlaying st \<longrightarrow>
         \<not> isTTSPlaying (toggleGlobalPlayback plat st) \<and>
         ttsCommands (toggleGlobalPlayback plat st) = ttsCommands st @ [StopTTS])) \<and>
   (\<not> isGlobalPlaying st \<and> currentSentenceIndex st < length (scriptSentences st) \<longrightarrow>
      isGlobalPlaying (toggleGlobalPlayback plat st))"
proof (intro conjI impI allI)
  assume g: "isGlobalPlaying st"
  note eq = toggle_pause_branch [OF g, of plat]
  show "\<not> isGlobalPlaying (toggleGlobalPlayback plat st)"
    by (simp add: eq Let_def)
  show "\<not> isAutoPlay (toggleGlobalPlayback plat st)"
    by (simp add: eq Let_def)
  show "sentenceTimerRef (toggleGlobalPlayback plat st) = None"
    by (simp add: eq Let_def)
  show "currentSentenceIndex (toggleGlobalPlayback plat st) = currentSentenceIndex st"
    by (simp add: eq Let_def)
  {
    fix i occ
    assume r: "sentenceTimerRef st = Some i"
    show p: "pendingJob i (toggleGlobalPlayback plat st) = None"
      by (simp add: eq Let_def r pendingJob_def find_filter_same clearIfSet_def)
    then show "fire plat occ i (toggleGlobalPlayback plat st) = toggleGlobalPlayback plat st"
      by (simp add: fire_def)
  }
  {
    assume t: "isTTSPlaying st"
    show "\<not> isTTSPlaying (toggleGlobalPlayback plat st)"
      by (simp add: eq Let_def t)
    show "ttsCommands (toggleGlobalPlayback plat st) = ttsCommands st @ [StopTTS]"
      by (simp add: eq Let_def t)
  }
next
  assume "\<not> isGlobalPlaying st \<and> currentSentenceIndex st < length (scriptSentences st)"
  then show "isGlobalPlaying (toggleGlobalPlayback plat st)"
    by (simp add: toggleGlobalPlayback_def Let_def speakSentence_def)
qed

text \<open>
  What the button does not do. The audio is paused under \<^verbatim>\<open>isAudioPlaying\<close> only, and
  no operation sets that flag: it is false in the idle state and stays false. So in every
  state reached, the pause branch sends no command to the backend, leaves the player
  playing, and clears no job but the timer of \<^verbatim>\<open>sentenceTimerRef\<close>: the detector's
  interval and the end check stay as they are.
\<close>

lemma isAudioPlaying_player [simp]:
  "isAudioPlaying (startVoiceActivityDetection plat cap setup cb st) = isAudioPlaying st"
  "isAudioPlaying (autoAdvance s c st) = isAudioPlaying st"
  "isAudioPlaying (checkAndStopAtSentenceEnd e t st) = isAudioPlaying st"
  "isAudioPlaying (stopCurrent st) = isAudioPlaying st"
  "isAudioPlaying (seekTo t st) = isAudioPlaying st"
  "isAudioPlaying (play plat st) = isAudioPlaying st"
  "isAudioPlaying (pause plat st) = isAudioPlaying st"
  by (simp_all add: startVoiceActivityDetection_def autoAdvance_def checkAndStopAtSentenceEnd_def
      stopCurrent_def seekTo_def play_def pause_def Let_def split: graph_setup.split option.split)

lemma isAudioPlaying_invoke [simp]: "isAudioPlaying (invoke cb st) = isAudioPlaying st"
  by (cases cb) simp

lemma isAudioPlaying_vadTick [simp]:
  "isAudioPlaying (vadTick fr i cap sil sp st) = isAudioPlaying st"
  by (simp add: vadTick_def Let_def split: option.split)

lemma isAudioPlaying_playWithVAD [simp]:
  "isAudioPlaying (playWithVAD plat cb e st) = isAudioPlaying st"
  by (simp add: playWithVAD_def Let_def)

lemma isAudioPlaying_playSentenceOnly [simp]:
  "isAudioPlaying (playSentenceOnly plat c s st) = isAudioPlaying st"
  by (simp add: playSentenceOnly_def Let_def)

lemma isAudioPlaying_speakSentence [simp]:
  "isAudioPlaying (speakSentence t st) = isAudioPlaying st"
  by (simp add: speakSentence_def)

lemma isAudioPlaying_fire: "isAudioPlaying (fire plat occ i st) = isAudioPlaying st"
  by (simp add: fire_def Let_def split: option.split task.split occasion.split)

lemma isAudioPlaying_toggleGlobalPlayback:
  "\<not> isAudioPlaying st \<Longrightarrow> \<not> isAudioPlaying (toggleGlobalPlayback plat st)"
  by (simp add: toggleGlobalPlayback_def Let_def)

lemma global_pause_sends_no_pause:
  assumes "isGlobalPlaying st" and "\<not> isAudioPlaying st"
  shows "commands (toggleGlobalPlayback plat st) = commands st"
    and "playerIsPlaying (toggleGlobalPlayback plat st) = playerIsPlaying st"
    and "isPlaying (toggleGlobalPlayback plat st) = isPlaying st"
    and "pending (toggleGlobalPlayback plat st) = pending (clearIfSet (sentenceTimerRef st) st)"
    and "vadIntervalRef (toggleGlobalPlayback plat st) = vadIntervalRef st"
    and "endCheckInterval (toggleGlobalPlayback plat st) = endCheckInterval st"
    and "analyserRef (toggleGlobalPlayback plat st) = analyserRef st"
  using assms
  by (simp_all add: toggle_pause_branch Let_def clearIfSet_def clearTimer_def split: option.split)

subsection \<open>Concrete runs\<close>

lemmas app_defs = manual_def idle_def s10_def s13_def clip_def timer_defs player_defs screen_defs Let_def
  audio_onplay_def audio_onpause_def

text \<open>
  On the web: a sentence is started; the audio element reports \<^verbatim>\<open>play\<close>; a second
  sentence is started, which pauses the element, so that the first promise is rejected;
  the second promise is resolved and the graph is built. The detector is then armed with
  the second callback, and its ticks sample.
\<close>

lemma aborted_then_armed_eval:
  "pending aborted_then_armed =
     [\<lparr>jobId = 3, delay = 100, task = EndCheckInterval (Some 13)\<rparr>,
      \<lparr>jobId = 5, delay = 100, task = VadInterval True 0 0\<rparr>] \<and>
   onSilenceDetectedRef aborted_then_armed = Some (OnSilence s13 manual) \<and>
   vadIntervalRef aborted_then_armed = Some 5 \<and> analyserRef aborted_then_armed \<and>
   invoked aborted_then_armed = [] \<and>
   commands aborted_then_armed = [Seek 10, Play, Seek 13, Pause, Play]"
  by (simp add: aborted_then_armed_def app_defs)

text \<open>
  C1 on that run. After seven silent ticks the silence counter is 7 and the callback is
  still registered. The eighth silent tick reaches the threshold: the sampling interval
  is gone, but no callback has been called, the ref is \<^verbatim>\<open>null\<close>, and the screen still has
  \<^verbatim>\<open>isPlaying\<close> set. The claim has the callback called exactly once there.
\<close>

theorem silence_threshold_reached_callback_not_invoked:
  "vadCounts 5 (ticks web [quiet, quiet, quiet, quiet, quiet, quiet, quiet] 5 aborted_then_armed)
     = Some (7, 0) \<and>
   onSilenceDetectedRef
     (ticks web [quiet, quiet, quiet, quiet, quiet, quiet, quiet] 5 aborted_then_armed)
     = Some (OnSilence s13 manual) \<and>
   pendingJob 5
     (ticks web [quiet, quiet, quiet, quiet, quiet, quiet, quiet, quiet] 5 aborted_then_armed)
     = None \<and>
   invoked
     (ticks web [quiet, quiet, quiet, quiet, quiet, quiet, quiet, quiet] 5 aborted_then_armed)
     = [] \<and>
   onSilenceDetectedRef
     (ticks web [quiet, quiet, quiet, quiet, quiet, quiet, quiet, quiet] 5 aborted_then_armed)
     = None \<and>
   isPlaying
     (ticks web [quiet, quiet, quiet, quiet, quiet, quiet, quiet, quiet] 5 aborted_then_armed)"
  by (simp add: aborted_then_armed_def app_defs vadCounts_def quiet_is_silence)

text \<open>
  C3 on a run on the web where the graph construction throws each time (no
  \<^verbatim>\<open>AudioContext\<close>): two sentences are started in succession, each promise of
  \<^verbatim>\<open>audio.play()\<close> resolved. Two fallback timeouts are then pending (jobs 3 and 6). When
  the first attempt's timeout elapses it calls the second sentence's callback, and the
  second timeout calls it again. The claim has the first trigger disarmed and only the
  second one firing.
\<close>

theorem second_play_leaves_first_fallback_armed:
  "map task (pending no_web_audio_twice) = [VadFallback, EndCheckInterval (Some 13), VadFallback] \<and>
   map jobId (pending no_web_audio_twice) = [3, 4, 6] \<and>
   invoked (fire web Elapsed 3 no_web_audio_twice) = [OnSilence s13 manual] \<and>
   invoked (fire web Elapsed 6 (fire web Elapsed 3 no_web_audio_twice)) =
     [OnSilence s13 manual, OnSilence s13 manual]"
  by (simp add: no_web_audio_twice_def app_defs)

text \<open>
  C4. The claim: from every state the global pause stops the active backend, clears
  auto-advance, goes to Paused and leaves no timer or detector armed. The pause branch of
  \<^verbatim>\<open>toggleGlobalPlayback\<close> (``Pause: stop all playback'', ``Stop original audio'')
  pauses the audio under \<^verbatim>\<open>isAudioPlaying\<close>, which nothing sets. On iOS in original
  mode the button starts the first sentence. Pressed again it clears the timer but sends
  no \<^verbatim>\<open>pause\<close> to the backend (the commands are still seek and play) and the player
  and the screen still have \<^verbatim>\<open>isPlaying\<close> set: the audio plays on. Pressed a third
  time, in the state the pause left, it starts playback again: \<^verbatim>\<open>isGlobalPlaying\<close> is set
  and a new timer is armed.
\<close>

theorem global_pause_leaves_audio_playing:
  "isGlobalPlaying original_playing \<and>
   commands original_playing = [Seek 10, Play] \<and>
   map task (pending original_playing) = [StopTimer s10 manual] \<and>
   pending (toggleGlobalPlayback ios original_playing) = [] \<and>
   commands (toggleGlobalPlayback ios original_playing) = [Seek 10, Play] \<and>
   playerIsPlaying (toggleGlobalPlayback ios original_playing) \<and>
   isPlaying (toggleGlobalPlayback ios original_playing) \<and>
   isGlobalPlaying (toggleGlobalPlayback ios (toggleGlobalPlayback ios original_playing)) \<and>
   map task (pending (toggleGlobalPlayback ios (toggleGlobalPlayback ios original_playing))) =
     [StopTimer s10 manual]"
  by (simp add: original_playing_def app_defs)

text \<open>
  The same on the web with the detector sampling: after the pause the commands have no
  new \<^verbatim>\<open>pause\<close>, the player is playing, both intervals are pending, and they go on
  changing the state: a silent tick is counted, and the end check pauses the audio at
  13 s.
\<close>

lemma global_pause_leaves_detector_sampling:
  "isGlobalPlaying replayed_on_web \<and>
   commands replayed_on_web = [Seek 10, Play, Seek 10, Pause, Play] \<and>
   map task (pending replayed_on_web) = [EndCheckInterval (Some 13), VadInterval True 0 0] \<and>
   map jobId (pending replayed_on_web) = [4, 6] \<and>
   \<not> isGlobalPlaying (toggleGlobalPlayback web replayed_on_web) \<and>
   commands (toggleGlobalPlayback web replayed_on_web) = [Seek 10, Play, Seek 10, Pause, Play] \<and>
   playerIsPlaying (toggleGlobalPlayback web replayed_on_web) \<and>
   pending (toggleGlobalPlayback web replayed_on_web) = pending replayed_on_web \<and>
   sampling 6 (toggleGlobalPlayback web replayed_on_web) \<and>
   vadCounts 6 (fire web (Sampled quiet) 6 (toggleGlobalPlayback web replayed_on_web)) = Some (1, 0) \<and>
   commands (fire web (AudioAt 13) 4 (toggleGlobalPlayback web replayed_on_web)) =
     [Seek 10, Play, Seek 10, Pause, Play, Pause]"
  by (simp add: replayed_on_web_def app_defs sampling_def vadCounts_def quiet_is_silence)

lemma fresh_ids_idle: "fresh_ids idle"
  by (simp add: fresh_ids_def older_def idle_def)

lemma manual_eval: "manual = \<lparr>cIsAutoPlay = False, cSentences = [s10, s13]\<rparr>"
  by (simp add: manual_def render_def idle_def)

lemma native_play_pending:
  assumes "plat \<noteq> web" and "audioPlayerRef st"
  shows "pending (playSentenceOnly plat c s st) =
           pending (clearIfSet (sentenceTimerRef st)
             (setTimer (duration s * 1000 + 200) (StopTimer s c) st))"
    and "nextId (playSentenceOnly plat c s st) = nextId st + 1"
    and "sentenceTimerRef (playSentenceOnly plat c s st) = Some (nextId st)"
    and "audioPlayerRef (playSentenceOnly plat c s st)"
    and "vadIntervalRef (playSentenceOnly plat c s st) = vadIntervalRef st"
    and "endCheckInterval (playSentenceOnly plat c s st) = endCheckInterval st"
  using assms
  by (simp_all add: native_play_then_timer play_def seekTo_def clearIfSet_def setTimer_def
      split: option.split)

lemma list_all_less_Suc: "list_all (\<lambda>j. jobId j < n) js \<Longrightarrow> list_all (\<lambda>j. jobId j < Suc n) js"
  by (induction js) auto

lemma older_Suc: "older r n \<Longrightarrow> older r (Suc n)"
  by (simp add: older_def split: option.splits)

lemma fresh_ids_native_play:
  assumes "plat \<noteq> web" and "audioPlayerRef st" and "fresh_ids st"
  shows "fresh_ids (playSentenceOnly plat c s st)"
proof -
  have "list_all (\<lambda>j. jobId j < Suc (nextId st))
          (pending (clearIfSet (sentenceTimerRef st)
             (setTimer (duration s * 1000 + 200) (StopTimer s c) st)))"
    using assms(3)
    by (auto simp add: fresh_ids_def clearIfSet_def setTimer_def list_all_filter
        list_all_less_Suc split: option.split)
  then show ?thesis
    using assms(3) native_play_pending [OF assms(1,2), of c s]
    by (simp add: fresh_ids_def older_Suc) (simp add: older_def)
qed

text \<open>
  The part of C3 that holds: in timer mode a second \<^verbatim>\<open>playSentenceOnly\<close> clears the
  first one's timeout, and the only timer it leaves in \<^verbatim>\<open>sentenceTimerRef\<close> is its own.
\<close>

lemma timer_mode_second_play_disarms_first:
  assumes "plat \<noteq> web" and "audioPlayerRef st" and "fresh_ids st"
  shows "pendingJob (nextId st) (playSentenceOnly plat c2 s2 (playSentenceOnly plat c1 s1 st)) = None \<and>
         pendingJob (nextId st + 1) (playSentenceOnly plat c2 s2 (playSentenceOnly plat c1 s1 st)) =
           Some \<lparr>jobId = nextId st + 1, delay = duration s2 * 1000 + 200, task = StopTimer s2 c2\<rparr> \<and>
         sentenceTimerRef (playSentenceOnly plat c2 s2 (playSentenceOnly plat c1 s1 st)) =
           Some (nextId st + 1)"
proof -
  let ?st1 = "playSentenceOnly plat c1 s1 st"
  note one = native_play_pending [OF assms(1,2), of c1 s1]
  note fr1 = fresh_ids_native_play [OF assms, of c1 s1]
  have ap: "audioPlayerRef ?st1" by (rule one(4))
  note two = native_play_pending [OF assms(1) ap, of c2 s2]
  have a: "pendingJob (nextId st) (playSentenceOnly plat c2 s2 ?st1) = None"
    by (simp add: pendingJob_def two(1) one(3) clearIfSet_def find_filter_same)
  have "audioRef ?st1 \<or> \<not> audioRef ?st1" by simp
  have fr: "list_all (\<lambda>j. jobId j < nextId ?st1) (pending ?st1)"
    using fr1 by (simp add: fresh_ids_def)
  have ne: "nextId ?st1 \<noteq> nextId st" by (simp add: one(2))
  have b: "pendingJob (nextId ?st1) (playSentenceOnly plat c2 s2 ?st1) =
      Some \<lparr>jobId = nextId ?st1, delay = duration s2 * 1000 + 200, task = StopTimer s2 c2\<rparr>"
    using pendingJob_setTimer_new [OF fr, of "duration s2 * 1000 + 200" "StopTimer s2 c2"] ne
    by (simp add: pendingJob_def two(1) one(3) clearIfSet_def find_filter_other)
  show ?thesis
    using a b two(3) by (simp add: one(2))
qed

text \<open>
  C8 on the scenario: the sentence from 10 to 13, duration 3, on iOS with auto play off.
\<close>

theorem timer_mode_plays_then_stops_after_duration_witness:
  "ios \<noteq> web \<and> audioPlayerRef idle \<and> audioRef idle \<and> fresh_ids idle \<and>
   start s10 = 10 \<and> end_field s10 = 13 \<and> duration s10 = 3 \<and> \<not> cIsAutoPlay manual \<and>
   commands (playSentenceOnly ios manual s10 idle) = [Seek 10, Play] \<and>
   pendingJob 1 (playSentenceOnly ios manual s10 idle) =
     Some \<lparr>jobId = 1, delay = 3200, task = StopTimer s10 manual\<rparr> \<and>
   \<not> isPlaying (fire ios Elapsed 1 (playSentenceOnly ios manual s10 idle)) \<and>
   currentSentenceIndex (fire ios Elapsed 1 (playSentenceOnly ios manual s10 idle)) = 0 \<and>
   commands (fire ios Elapsed 1 (playSentenceOnly ios manual s10 idle)) = [Seek 10, Play, Pause] \<and>
   pending (fire ios Elapsed 1 (playSentenceOnly ios manual s10 idle)) = []"
proof -
  have h: "ios \<noteq> web" "audioPlayerRef idle" "audioRef idle"
    by (simp_all add: idle_def)
  have s: "start s10 = 10" "end_field s10 = 13" "duration s10 = 3" "\<not> cIsAutoPlay manual"
    by (simp_all add: s10_def clip_def manual_eval)
  have i: "nextId idle = 1" "commands idle = []" "currentSentenceIndex idle = 0"
    by (simp_all add: idle_def)
  have p: "pending (playSentenceOnly ios manual s10 idle) =
      [\<lparr>jobId = 1, delay = 3200, task = StopTimer s10 manual\<rparr>]"
    by (simp add: idle_def playSentenceOnly_def play_def seekTo_def timer_defs Let_def s)
  from timer_mode_plays_then_stops_after_duration [OF h fresh_ids_idle, of manual s10] h s i p
    fresh_ids_idle
  show ?thesis by simp
qed

text \<open>The amended C6 on a run: the fallback of 5000 ms is armed and calls the callback.\<close>

theorem detector_setup_failure_fallback_witness:
  "fresh_ids idle \<and>
   pending (startVoiceActivityDetection web False SetupThrows (OnSilence s10 manual) idle) =
     [\<lparr>jobId = 1, delay = 5000, task = VadFallback\<rparr>] \<and>
   invoked (fire web Elapsed 1
     (startVoiceActivityDetection web False SetupThrows (OnSilence s10 manual) idle)) =
     [OnSilence s10 manual]"
proof -
  have i: "nextId idle = 1" "invoked idle = []" "pending (stopVoiceActivityDetection idle) = []"
    by (simp_all add: idle_def stopVoiceActivityDetection_def clearIfSet_def)
  from detector_setup_failure_fallback [OF fresh_ids_idle, of False "OnSilence s10 manual"] i
    fresh_ids_idle
  show ?thesis by simp
qed

text \<open>
  C6, as stated, fails: when the audio element is already connected, and on a platform
  other than the web, arming leaves no job pending, so no fallback delay exists and the
  callback is not called.
\<close>

theorem detector_source_attached_no_fallback_counterexample:
  "pending (startVoiceActivityDetection web False SourceAlreadyConnected (OnSilence s10 manual) idle)
     = [] \<and>
   invoked (startVoiceActivityDetection web False SourceAlreadyConnected (OnSilence s10 manual) idle)
     = [] \<and>
   pending (startVoiceActivityDetection ios False SetupThrows (OnSilence s10 manual) idle) = []"
  by (simp add: app_defs)

text \<open>
  The button on a run: the pause clears the armed timer of 3200 ms; from the idle state
  the button starts playback.
\<close>

lemma global_pause_when_playing_run:
  "isGlobalPlaying original_playing \<and> sentenceTimerRef original_playing = Some 1 \<and>
   pendingJob 1 original_playing =
     Some \<lparr>jobId = 1, delay = 3200, task = StopTimer s10 manual\<rparr> \<and>
   \<not> isGlobalPlaying (toggleGlobalPlayback ios original_playing) \<and>
   sentenceTimerRef (toggleGlobalPlayback ios original_playing) = None \<and>
   pendingJob 1 (toggleGlobalPlayback ios original_playing) = None \<and>
   \<not> isGlobalPlaying idle \<and> isGlobalPlaying (toggleGlobalPlayback ios idle)"
proof -
  have a: "isGlobalPlaying original_playing" "sentenceTimerRef original_playing = Some 1"
    "pendingJob 1 original_playing =
       Some \<lparr>jobId = 1, delay = 3200, task = StopTimer s10 manual\<rparr>"
    by (simp_all add: original_playing_def app_defs)
  have b: "\<not> isGlobalPlaying idle" "currentSentenceIndex idle < length (scriptSentences idle)"
    by (simp_all add: idle_def)
  from global_pause_when_playing [of original_playing ios] global_pause_when_playing [of idle ios] a b
  show ?thesis by simp
qed

text \<open>
  C9 on a run: after five silent ticks, two Speech ticks leave the silence counter at 5
  and a third resets it to 0.
\<close>

theorem speech_run_below_stability_keeps_silence_count_witness:
  "vadCounts 5 (ticks web [quiet, quiet, quiet, quiet, quiet] 5 aborted_then_armed) = Some (5, 0) \<and>
   list_all isSpeech [loud, loud] \<and>
   map_option fst (vadCounts 5 (ticks web [loud, loud] 5
     (ticks web [quiet, quiet, quiet, quiet, quiet] 5 aborted_then_armed))) = Some 5 \<and>
   map_option fst (vadCounts 5 (ticks web [loud, loud, loud] 5
     (ticks web [quiet, quiet, quiet, quiet, quiet] 5 aborted_then_armed))) = Some 0"
proof -
  let ?st = "ticks web [quiet, quiet, quiet, quiet, quiet] 5 aborted_then_armed"
  have c: "vadCounts 5 ?st = Some (5, 0)" and s: "sampling 5 ?st"
    by (simp_all add: aborted_then_armed_def app_defs vadCounts_def sampling_def
        quiet_is_silence)
  have l2: "list_all isSpeech [loud, loud]" and l3: "list_all isSpeech [loud, loud, loud]"
    by (simp_all add: loud_is_speech)
  have r2: "map_option fst (vadCounts 5 (ticks web [loud, loud] 5 ?st)) = Some 5"
    using speech_run_below_stability_keeps_silence_count [OF c l2, of web, THEN conjunct1]
    by (simp add: speechThreshold_def del: ticks.simps)
  have r3: "map_option fst (vadCounts 5 (ticks web [loud, loud, loud] 5 ?st)) = Some 0"
    using speech_run_below_stability_keeps_silence_count
      [OF c l3, of web, THEN conjunct2, THEN conjunct1] s
    by (simp add: speechThreshold_def del: ticks.simps)
  from c l2 r2 r3 show ?thesis by (simp del: ticks.simps)
qed

subsection \<open>Timer ids stay fresh\<close>

text \<open>
  Every operation of the screen and every event keeps \<open>fresh_ids\<close>, which holds in
  the idle state: it holds in every state they reach.
\<close>

lemma older_less: "older r n \<Longrightarrow> n \<le> m \<Longrightarrow> older r m"
  by (auto simp add: older_def split: option.splits)

lemma list_all_less_mono: "list_all (\<lambda>j. jobId j < n) js \<Longrightarrow> n \<le> m \<Longrightarrow> list_all (\<lambda>j. jobId j < m) js"
  by (induction js) auto

lemma grows_refl [simp]: "grows st st"
  by (simp add: grows_def)

lemma grows_trans: "grows a b \<Longrightarrow> grows b c \<Longrightarrow> grows a c"
  by (auto simp add: grows_def)

lemma grows_setTimer: "grows st st' \<Longrightarrow> grows st (setTimer ms t st')"
  by (auto simp add: grows_def fresh_ids_def setTimer_def list_all_less_Suc older_Suc)

lemma grows_clearTimer: "grows st st' \<Longrightarrow> grows st (clearTimer i st')"
  by (auto simp add: grows_def fresh_ids_def list_all_filter)

lemma grows_clearIfSet: "grows st st' \<Longrightarrow> grows st (clearIfSet r st')"
  by (simp add: clearIfSet_def grows_clearTimer split: option.split)

lemma list_all_setTask:
  "list_all (\<lambda>j. jobId j < n) (map (\<lambda>j. if jobId j = i then j\<lparr>task := t\<rparr> else j) js) =
   list_all (\<lambda>j. jobId j < n) js"
  by (induction js) auto

lemma grows_setTask: "grows st st' \<Longrightarrow> grows st (setTask i t st')"
  by (auto simp add: grows_def fresh_ids_def setTask_def list_all_setTask)

lemma grows_update:
  assumes "grows st st'"
  shows
    "grows st (st'\<lparr>scriptSentences := v0\<rparr>)"
    "grows st (st'\<lparr>currentSentenceIndex := v1\<rparr>)"
    "grows st (st'\<lparr>isPlaying := v2\<rparr>)"
    "grows st (st'\<lparr>isAutoPlay := v3\<rparr>)"
    "grows st (st'\<lparr>isAudioPlaying := v4\<rparr>)"
    "grows st (st'\<lparr>playbackMode := v5\<rparr>)"
    "grows st (st'\<lparr>isTTSPlaying := v6\<rparr>)"
    "grows st (st'\<lparr>isGlobalPlaying := v7\<rparr>)"
    "grows st (st'\<lparr>currentSentence := v8\<rparr>)"
    "grows st (st'\<lparr>audioPlayerRef := v9\<rparr>)"
    "grows st (st'\<lparr>audioRef := v10\<rparr>)"
    "grows st (st'\<lparr>playerIsPlaying := v11\<rparr>)"
    "grows st (st'\<lparr>sentenceEndTime := v12\<rparr>)"
    "grows st (st'\<lparr>audioContextRef := v13\<rparr>)"
    "grows st (st'\<lparr>analyserRef := v14\<rparr>)"
    "grows st (st'\<lparr>onSilenceDetectedRef := v15\<rparr>)"
    "grows st (st'\<lparr>commands := v16\<rparr>)"
    "grows st (st'\<lparr>ttsCommands := v17\<rparr>)"
    "grows st (st'\<lparr>invoked := v18\<rparr>)"
    "grows st (st'\<lparr>sentenceTimerRef := None\<rparr>)"
    "grows st (st'\<lparr>vadIntervalRef := None\<rparr>)"
    "grows st (st'\<lparr>endCheckInterval := None\<rparr>)"
  using assms by (simp_all add: grows_def fresh_ids_def older_def)

lemma grows_ref:
  assumes "grows st st'" and "i < nextId st'"
  shows "grows st (st'\<lparr>sentenceTimerRef := Some i\<rparr>)"
    "grows st (st'\<lparr>vadIntervalRef := Some i\<rparr>)"
    "grows st (st'\<lparr>endCheckInterval := Some i\<rparr>)"
  using assms by (simp_all add: grows_def fresh_ids_def older_def)

lemma nextId_setTimer [simp]: "nextId (setTimer ms t st) = Suc (nextId st)"
  by (simp add: setTimer_def)

lemmas grows_steps = grows_setTimer grows_clearTimer grows_clearIfSet grows_setTask grows_update

lemma grows_stop: "grows st st' \<Longrightarrow> grows st (stopVoiceActivityDetection st')"
  by (simp add: stopVoiceActivityDetection_def grows_steps)

lemma grows_start:
  "grows st st' \<Longrightarrow> grows st (startVoiceActivityDetection plat cap setup cb st')"
  by (simp add: startVoiceActivityDetection_def Let_def grows_steps grows_stop grows_ref
      split: graph_setup.split)

lemma grows_autoAdvance: "grows st st' \<Longrightarrow> grows st (autoAdvance s c st')"
  by (simp add: autoAdvance_def Let_def grows_steps)

lemma grows_invoke: "grows st st' \<Longrightarrow> grows st (invoke cb st')"
  by (cases cb) (simp add: grows_autoAdvance grows_steps)

lemma grows_vadTick: "grows st st' \<Longrightarrow> grows st (vadTick fr i cap sil sp st')"
  by (simp add: vadTick_def Let_def grows_steps grows_stop grows_invoke split: option.split)

lemma grows_checkAndStop:
  "grows st st' \<Longrightarrow> grows st (checkAndStopAtSentenceEnd e t st')"
  by (simp add: checkAndStopAtSentenceEnd_def Let_def grows_steps grows_stop split: option.split)

lemma grows_stopCurrent: "grows st st' \<Longrightarrow> grows st (stopCurrent st')"
  by (simp add: stopCurrent_def Let_def grows_steps grows_stop)

lemma grows_seekTo: "grows st st' \<Longrightarrow> grows st (seekTo t st')"
  by (simp add: seekTo_def grows_steps)

lemma grows_play: "grows st st' \<Longrightarrow> grows st (play plat st')"
  by (simp add: play_def Let_def grows_steps grows_stopCurrent)

lemma grows_pause: "grows st st' \<Longrightarrow> grows st (pause plat st')"
  by (simp add: pause_def Let_def grows_steps grows_stop)

lemma grows_playWithVAD: "grows st st' \<Longrightarrow> grows st (playWithVAD plat cb e st')"
  by (simp add: playWithVAD_def Let_def grows_steps grows_stopCurrent grows_ref)

lemma grows_playSentenceOnly: "grows st st' \<Longrightarrow> grows st (playSentenceOnly plat c s st')"
  by (simp add: playSentenceOnly_def Let_def grows_steps grows_seekTo grows_play
      grows_playWithVAD grows_ref)

lemma grows_speakSentence: "grows st st' \<Longrightarrow> grows st (speakSentence txt st')"
  by (simp add: speakSentence_def grows_steps)

lemma grows_toggleGlobalPlayback: "grows st st' \<Longrightarrow> grows st (toggleGlobalPlayback plat st')"
  by (simp add: toggleGlobalPlayback_def Let_def grows_steps grows_pause grows_speakSentence
      grows_playSentenceOnly)

lemma grows_fire: "grows st st' \<Longrightarrow> grows st (fire plat occ i st')"
  by (simp add: fire_def Let_def grows_steps grows_vadTick grows_checkAndStop grows_invoke
      grows_autoAdvance grows_pause grows_playSentenceOnly grows_start
      split: option.split task.split occasion.split)

lemma fresh_ids_preserved:
  assumes "fresh_ids st"
  shows "fresh_ids (playSentenceOnly plat c s st)"
    and "fresh_ids (toggleGlobalPlayback plat st)"
    and "fresh_ids (fire plat occ i st)"
    and "fresh_ids (audio_onplay st)"
    and "fresh_ids (audio_onpause st)"
  using assms grows_playSentenceOnly [of st st plat c s] grows_toggleGlobalPlayback [of st st plat]
    grows_fire [of st st plat occ i]
  by (simp_all add: grows_def) (simp_all add: fresh_ids_def audio_onplay_def audio_onpause_def)

end
